theory Spec2Isabelle
  imports Complex_Main "HOL-Library.Word" "HOL-Library.AList"
begin

section \<open>pocketmon: the sampling and reporting loop of \<^verbatim>\<open>collector.go\<close>\<close>

text \<open>
  The agent samples host figures and the state of a local node over HTTP, bundles them
  into one \<^verbatim>\<open>Stats\<close> value and posts it to a remote collector. The Go functions are
  embedded one by one, under their own names. What Go gets from its libraries (the HTTP
  transport, the JSON codec, the clock, the gopsutil queries) is a field of the record
  \<open>env\<close>: the functions of \<^verbatim>\<open>collector.go\<close> are modelled for every such environment.

  A Go call either returns or panics; what it did to the outside world on the way is a
  list of events. Writes to the log (\<^verbatim>\<open>log.Println\<close>, \<^verbatim>\<open>fmt.Printf\<close>) are not
  events of the model.
\<close>

subsection \<open>Data\<close>

type_synonym uint64 = "64 word"

text \<open>
  A \<^verbatim>\<open>float64\<close> that is finite is modelled by the real number it denotes; infinities and
  NaN have no counterpart, and the one place that can produce them (a division by a zero
  total in \<^verbatim>\<open>HostStats.String\<close>) says so in its result.
\<close>

type_synonym float64 = real

record NodeStats =
  Chain :: string
  AppVersion :: string
  Moniker :: string
  Height :: int
  LatestBlockTime :: string
  CatchingUp :: bool
  Balance :: float64
  Chains :: "string list"
  Jailed :: bool
  ServiceUrl :: string
  Address :: string
  PublicKey :: string

record HostStats =
  MemoryTotal :: uint64
  MemoryFree :: uint64
  DiskTotal :: uint64
  DiskFree :: uint64
  Uptime :: uint64
  Platform :: string
  CPUUsagePercent :: float64

record Stats =
  Version :: string
  Timestamp :: string
  Node :: NodeStats
  Host :: HostStats

text \<open>The zero values Go gives to \<^verbatim>\<open>NodeStats{}\<close> and \<^verbatim>\<open>HostStats{}\<close>.\<close>

definition zeroNodeStats :: NodeStats where
  "zeroNodeStats =
     \<lparr>Chain = [], AppVersion = [], Moniker = [], Height = 0, LatestBlockTime = [],
      CatchingUp = False, Balance = 0, Chains = [], Jailed = False, ServiceUrl = [],
      Address = [], PublicKey = []\<rparr>"

definition zeroHostStats :: HostStats where
  "zeroHostStats =
     \<lparr>MemoryTotal = 0, MemoryFree = 0, DiskTotal = 0, DiskFree = 0, Uptime = 0,
      Platform = [], CPUUsagePercent = 0\<rparr>"

text \<open>
  What \<^verbatim>\<open>encoding/json\<close> decodes into an \<^verbatim>\<open>interface{}\<close>: nil, bool, float64, string,
  a slice, or a \<^verbatim>\<open>map[string]interface{}\<close>. A map is an association list read with
  \<open>map_of\<close>; a key that is absent reads as Go's nil interface, here \<open>None\<close>.
\<close>

datatype json =
    JNull
  | JBool bool
  | JNumber float64
  | JString string
  | JArray "json list"
  | JObject "(string \<times> json) list"

type_synonym jmap = "(string \<times> json) list"

datatype http_method = GET | POST

record request =
  Method :: http_method
  URL :: string
  Header :: "(string \<times> string) list"
  ReqBody :: string

record response =
  StatusCode :: int
  Body :: string

datatype num_error = ErrSyntax | ErrRange

datatype error =
    TransportError string
  | DecodeError string
  | MarshalError string
  | ResourceError string
  | NumError string num_error
  | ErrorsNew string

datatype panic =
    InterfaceConversion string
  | NilPointerDereference
  | IndexOutOfRange

datatype event =
    ClockNow
  | MemVirtualMemory
  | DiskUsage string
  | CpuPercent
  | HostInfo
  | NewTicker int
  | HttpCall request

record env =
  transport :: "request \<Rightarrow> string + response"
  urlParses :: "string \<Rightarrow> bool"
  decodeObject :: "string \<Rightarrow> string + jmap"
  decodeString :: "string \<Rightarrow> string + string"
  marshalAddress :: "string \<Rightarrow> string + string"
  marshalStats :: "Stats \<Rightarrow> string + string"
  nowRFC3339 :: string
  GOOS :: string
  virtualMemory :: "string + (uint64 \<times> uint64)"
  diskUsage :: "string \<Rightarrow> string + (uint64 \<times> uint64)"
  cpuPercent :: "string + float64 list"
  hostInfo :: "string + (string \<times> uint64)"

text \<open>
  The fields of \<open>env\<close>, in the words of the Go they stand for:
  \<^item> \<open>transport\<close>: what \<^verbatim>\<open>client.Do\<close> answers to a request, a transport error text or
    the response, its body as \<^verbatim>\<open>ioutil.ReadAll\<close> reads it;
  \<^item> \<open>urlParses\<close>: whether \<^verbatim>\<open>http.NewRequest\<close> accepts the URL (it returns a nil
    request otherwise);
  \<^item> \<open>decodeObject\<close>, \<open>decodeString\<close>: \<^verbatim>\<open>json.NewDecoder(r.Body).Decode(&result)\<close> for a
    \<^verbatim>\<open>map[string]interface{}\<close> and for a \<^verbatim>\<open>string\<close> target;
  \<^item> \<open>marshalAddress\<close>, \<open>marshalStats\<close>: \<^verbatim>\<open>json.Marshal\<close> of the map
    \<^verbatim>\<open>{"address": addr}\<close> and of a \<^verbatim>\<open>Stats\<close>;
  \<^item> \<open>nowRFC3339\<close>: \<^verbatim>\<open>time.Now().Format(time.RFC3339)\<close>; \<open>GOOS\<close>: \<^verbatim>\<open>runtime.GOOS\<close>;
  \<^item> \<open>virtualMemory\<close> (Total, Available), \<open>diskUsage\<close> (Total, Free), \<open>cpuPercent\<close>,
    \<open>hostInfo\<close> (Platform, Uptime): the gopsutil queries.
\<close>

subsection \<open>Runs: events, then a return or a panic\<close>

datatype 'a outcome = Returns 'a | Panics panic

type_synonym 'a run = "event list \<times> 'a outcome"

definition ret :: "'a \<Rightarrow> 'a run" where
  "ret a = ([], Returns a)"

definition raise_panic :: "panic \<Rightarrow> 'a run" where
  "raise_panic p = ([], Panics p)"

definition emit :: "event \<Rightarrow> 'a \<Rightarrow> 'a run" where
  "emit e a = ([e], Returns a)"

definition andThen :: "'a run \<Rightarrow> ('a \<Rightarrow> 'b run) \<Rightarrow> 'b run" where
  "andThen m f =
     (case m of
        (t, Panics p) \<Rightarrow> (t, Panics p)
      | (t, Returns a) \<Rightarrow> (case f a of (t', r) \<Rightarrow> (t @ t', r)))"

definition events :: "'a run \<Rightarrow> event list" where
  "events m = fst m"

definition result :: "'a run \<Rightarrow> 'a outcome" where
  "result m = snd m"

subsection \<open>Type assertions on decoded JSON\<close>

text \<open>
  \<^verbatim>\<open>v.(T)\<close> panics when \<open>v\<close> is nil or of another dynamic type; the two-valued form
  \<^verbatim>\<open>x, ok := v.(T)\<close> does not.
\<close>

definition assertObject :: "json option \<Rightarrow> jmap run" where
  "assertObject v =
     (case v of Some (JObject m) \<Rightarrow> ret m
      | _ \<Rightarrow> raise_panic (InterfaceConversion ''map[string]interface {}''))"

definition assertString :: "json option \<Rightarrow> string run" where
  "assertString v =
     (case v of Some (JString s) \<Rightarrow> ret s
      | _ \<Rightarrow> raise_panic (InterfaceConversion ''string''))"

definition assertBool :: "json option \<Rightarrow> bool run" where
  "assertBool v =
     (case v of Some (JBool b) \<Rightarrow> ret b
      | _ \<Rightarrow> raise_panic (InterfaceConversion ''bool''))"

definition assertFloat64 :: "json option \<Rightarrow> float64 run" where
  "assertFloat64 v =
     (case v of Some (JNumber x) \<Rightarrow> ret x
      | _ \<Rightarrow> raise_panic (InterfaceConversion ''float64''))"

definition assertObjectOk :: "json option \<Rightarrow> jmap option" where
  "assertObjectOk v = (case v of Some (JObject m) \<Rightarrow> Some m | _ \<Rightarrow> None)"

subsection \<open>\<^verbatim>\<open>strconv.ParseInt(s, 10, 64)\<close>\<close>

text \<open>
  The only call of \<^verbatim>\<open>ParseInt\<close> has base 10 and 64 bits: an optional sign, then one or more
  decimal digits read left to right, a range error as soon as the magnitude leaves 64 bits
  or the signed value leaves \<open>[-2^63, 2^63)\<close>.
\<close>

definition isDigit :: "char \<Rightarrow> bool" where
  "isDigit c = (48 \<le> (of_char c :: int) \<and> (of_char c :: int) \<le> 57)"

definition digitVal :: "char \<Rightarrow> int" where
  "digitVal c = of_char c - 48"

fun parseDigits :: "int \<Rightarrow> string \<Rightarrow> num_error + int" where
  "parseDigits n [] = Inr n"
| "parseDigits n (c # cs) =
     (if \<not> isDigit c then Inl ErrSyntax
      else if 2 ^ 64 \<le> n * 10 + digitVal c then Inl ErrRange
      else parseDigits (n * 10 + digitVal c) cs)"

definition ParseUint :: "string \<Rightarrow> num_error + int" where
  "ParseUint s = (if s = [] then Inl ErrSyntax else parseDigits 0 s)"

definition ParseInt :: "string \<Rightarrow> num_error + int" where
  "ParseInt s0 =
     (if s0 = [] then Inl ErrSyntax
      else
        let neg = (hd s0 = CHR ''-'');
            s = (if hd s0 = CHR ''+'' \<or> hd s0 = CHR ''-'' then tl s0 else s0)
        in case ParseUint s of
             Inl ErrSyntax \<Rightarrow> Inl ErrSyntax
           | Inl ErrRange \<Rightarrow> Inl ErrRange
           | Inr un \<Rightarrow>
               if \<not> neg \<and> 2 ^ 63 \<le> un then Inl ErrRange
               else if neg \<and> 2 ^ 63 < un then Inl ErrRange
               else Inr (if neg then - un else un))"

subsection \<open>The HTTP client\<close>

definition clientDo :: "env \<Rightarrow> request \<Rightarrow> (error + response) run" where
  "clientDo env req =
     emit (HttpCall req)
       (case transport env req of
          Inl msg \<Rightarrow> Inl (TransportError msg)
        | Inr resp \<Rightarrow> Inr resp)"

definition clientGet :: "env \<Rightarrow> string \<Rightarrow> (error + response) run" where
  "clientGet env u = clientDo env \<lparr>Method = GET, URL = u, Header = [], ReqBody = []\<rparr>"

text \<open>
  \<^verbatim>\<open>req, err := http.NewRequest(...)\<close>: the error is dropped by every caller, so a URL
  that does not parse leaves \<open>req\<close> nil and the next \<^verbatim>\<open>req.Header.Set\<close> panics.
\<close>

definition newRequest :: "env \<Rightarrow> http_method \<Rightarrow> string \<Rightarrow> string \<Rightarrow> request option" where
  "newRequest env m u b =
     (if urlParses env u then Some \<lparr>Method = m, URL = u, Header = [], ReqBody = b\<rparr>
      else None)"

definition headerSet :: "request option \<Rightarrow> string \<Rightarrow> string \<Rightarrow> request option run" where
  "headerSet req k v =
     (case req of
        None \<Rightarrow> raise_panic NilPointerDereference
      | Some r \<Rightarrow> ret (Some (r\<lparr>Header := AList.update k v (Header r)\<rparr>)))"

definition doRequest :: "env \<Rightarrow> request option \<Rightarrow> (error + response) run" where
  "doRequest env req =
     (case req of
        None \<Rightarrow> raise_panic NilPointerDereference
      | Some r \<Rightarrow> clientDo env r)"

subsection \<open>The four queries of the local node\<close>

definition versionUrl :: string where
  "versionUrl = ''http://localhost:8082/v1''"

definition statusUrl :: string where
  "statusUrl = ''http://localhost:26657/status''"

definition nodeUrl :: string where
  "nodeUrl = ''http://localhost:8082/v1/query/node''"

definition balanceUrl :: string where
  "balanceUrl = ''http://localhost:8082/v1/query/balance''"

text \<open>
  The body of \<^verbatim>\<open>queryBalance\<close> and \<^verbatim>\<open>queryNode\<close> after the URL is chosen: the two
  functions are the same text but for the URL.
\<close>

definition postAddress :: "env \<Rightarrow> string \<Rightarrow> string \<Rightarrow> (jmap \<times> error option) run" where
  "postAddress env u addr =
     (case marshalAddress env addr of
        Inl msg \<Rightarrow> ret ([], Some (MarshalError msg))
      | Inr data \<Rightarrow>
          andThen (headerSet (newRequest env POST u data) ''Content-Type'' ''application/json'')
            (\<lambda>req.
          andThen (doRequest env req)
            (\<lambda>r.
          case r of
            Inl err \<Rightarrow> ret ([], Some err)
          | Inr resp \<Rightarrow>
              (case decodeObject env (Body resp) of
                 Inl msg \<Rightarrow> ret ([], Some (DecodeError msg))
               | Inr res \<Rightarrow> ret (res, None)))))"

definition queryBalance :: "env \<Rightarrow> string \<Rightarrow> (jmap \<times> error option) run" where
  "queryBalance env addr = postAddress env balanceUrl addr"

definition queryNode :: "env \<Rightarrow> string \<Rightarrow> (jmap \<times> error option) run" where
  "queryNode env addr = postAddress env nodeUrl addr"

definition queryStatus :: "env \<Rightarrow> (jmap \<times> error option) run" where
  "queryStatus env =
     andThen (clientGet env statusUrl)
       (\<lambda>r.
     case r of
       Inl err \<Rightarrow> ret ([], Some err)
     | Inr resp \<Rightarrow>
         (case decodeObject env (Body resp) of
            Inl msg \<Rightarrow> ret ([], Some (DecodeError msg))
          | Inr res \<Rightarrow> ret (res, None)))"

definition queryVersion :: "env \<Rightarrow> (string \<times> error option) run" where
  "queryVersion env =
     andThen (clientGet env versionUrl)
       (\<lambda>r.
     case r of
       Inl err \<Rightarrow> ret ([], Some err)
     | Inr resp \<Rightarrow>
         (case decodeString env (Body resp) of
            Inl msg \<Rightarrow> ret ([], Some (DecodeError msg))
          | Inr res \<Rightarrow> ret (res, None)))"

subsection \<open>\<^verbatim>\<open>collectNodeStats\<close>\<close>

text \<open>
  Lines 238 to 248 of \<^verbatim>\<open>collector.go\<close>: the fields of the \<^verbatim>\<open>/status\<close> result are read with
  one-valued type assertions, in this order. \<open>s\<close> is the record filled so far.
\<close>

definition readStatus :: "NodeStats \<Rightarrow> jmap \<Rightarrow> (NodeStats \<times> error option) run" where
  "readStatus s status =
     andThen (assertObject (map_of status ''node_info'')) (\<lambda>nodeInfo.
     andThen (assertString (map_of nodeInfo ''id'')) (\<lambda>a.
     andThen (assertString (map_of nodeInfo ''moniker'')) (\<lambda>m.
     andThen (assertObject (map_of status ''sync_info'')) (\<lambda>syncInfo.
     andThen (assertString (map_of syncInfo ''latest_block_height'')) (\<lambda>hs.
     let s1 = s\<lparr>Address := a, Moniker := m\<rparr> in
     case ParseInt hs of
       Inl k \<Rightarrow> ret (s1, Some (NumError hs k))
     | Inr h \<Rightarrow>
         andThen (assertString (map_of syncInfo ''latest_block_time'')) (\<lambda>lbt.
         andThen (assertBool (map_of syncInfo ''catching_up'')) (\<lambda>cu.
         ret (s1\<lparr>Height := h, LatestBlockTime := lbt, CatchingUp := cu\<rparr>, None))))))))"

text \<open>Lines 250 to 265: the node and balance queries, with the address read above.\<close>

definition readNodeAndBalance :: "env \<Rightarrow> NodeStats \<Rightarrow> (NodeStats \<times> error option) run" where
  "readNodeAndBalance env s =
     andThen (queryNode env (Address s)) (\<lambda>(nodeResp, err).
     case err of
       Some e \<Rightarrow> ret (s, Some e)
     | None \<Rightarrow>
         andThen (assertString (map_of nodeResp ''public_key'')) (\<lambda>pk.
         andThen (assertBool (map_of nodeResp ''jailed'')) (\<lambda>j.
         andThen (assertString (map_of nodeResp ''service_url'')) (\<lambda>su.
         let s1 = s\<lparr>PublicKey := pk, Jailed := j, ServiceUrl := su\<rparr> in
         andThen (queryBalance env (Address s1)) (\<lambda>(balResp, err).
         case err of
           Some e \<Rightarrow> ret (s1, Some e)
         | None \<Rightarrow>
             andThen (assertFloat64 (map_of balResp ''balance'')) (\<lambda>b.
             ret (s1\<lparr>Balance := b\<rparr>, None)))))))"

definition collectNodeStats :: "env \<Rightarrow> (NodeStats \<times> error option) run" where
  "collectNodeStats env =
     (let s = zeroNodeStats\<lparr>Chain := ''pocket''\<rparr> in
      andThen (queryVersion env) (\<lambda>(ver, err).
      case err of
        Some e \<Rightarrow> ret (s, Some e)
      | None \<Rightarrow>
          let s1 = s\<lparr>AppVersion := ver\<rparr> in
          andThen (queryStatus env) (\<lambda>(statusResp, err).
          case err of
            Some e \<Rightarrow> ret (s1, Some e)
          | None \<Rightarrow>
              (case assertObjectOk (map_of statusResp ''result'') of
                 None \<Rightarrow> ret (s1, Some (ErrorsNew ''Invalid data from /status call''))
               | Some status \<Rightarrow>
                   andThen (readStatus s1 status) (\<lambda>(s2, err).
                   case err of
                     Some e \<Rightarrow> ret (s2, Some e)
                   | None \<Rightarrow> readNodeAndBalance env s2)))))"

subsection \<open>\<^verbatim>\<open>collectHostStats\<close>, \<^verbatim>\<open>collectStats\<close>\<close>

definition collectHostStats :: "env \<Rightarrow> (HostStats \<times> error option) run" where
  "collectHostStats env =
     (let s = zeroHostStats in
      andThen (emit MemVirtualMemory (virtualMemory env)) (\<lambda>vm.
      case vm of
        Inl msg \<Rightarrow> ret (s, Some (ResourceError msg))
      | Inr (mtotal, mavailable) \<Rightarrow>
          let s1 = s\<lparr>MemoryTotal := mtotal, MemoryFree := mavailable\<rparr>;
              path = (if GOOS env = ''windows'' then [CHR 0x5C] else ''/'')
          in
          andThen (emit (DiskUsage path) (diskUsage env path)) (\<lambda>du.
          case du of
            Inl msg \<Rightarrow> ret (s1, Some (ResourceError msg))
          | Inr (dtotal, dfree) \<Rightarrow>
              let s2 = s1\<lparr>DiskTotal := dtotal, DiskFree := dfree\<rparr> in
              andThen (emit CpuPercent (cpuPercent env)) (\<lambda>cp.
              case cp of
                Inl msg \<Rightarrow> ret (s2, Some (ResourceError msg))
              | Inr percentage \<Rightarrow>
                  (case percentage of
                     [] \<Rightarrow> raise_panic IndexOutOfRange
                   | p0 # _ \<Rightarrow>
                       let s3 = s2\<lparr>CPUUsagePercent := p0\<rparr> in
                       andThen (emit HostInfo (hostInfo env)) (\<lambda>hi.
                       case hi of
                         Inl msg \<Rightarrow> ret (s3, Some (ResourceError msg))
                       | Inr (platform, uptime) \<Rightarrow>
                           ret (s3\<lparr>Platform := platform, Uptime := uptime\<rparr>, None)))))))"

definition zeroStats :: Stats where
  "zeroStats = \<lparr>Version = [], Timestamp = [], Node = zeroNodeStats, Host = zeroHostStats\<rparr>"

definition collectStats :: "env \<Rightarrow> (Stats \<times> error option) run" where
  "collectStats env =
     andThen (emit ClockNow (nowRFC3339 env)) (\<lambda>now.
     let s = zeroStats\<lparr>Version := ''v1'', Timestamp := now\<rparr> in
     andThen (collectHostStats env) (\<lambda>(hs, err).
     case err of
       Some e \<Rightarrow> ret (s, Some e)
     | None \<Rightarrow>
         andThen (collectNodeStats env) (\<lambda>(ns, err).
         case err of
           Some e \<Rightarrow> ret (s, Some e)
         | None \<Rightarrow> ret (s\<lparr>Host := hs, Node := ns\<rparr>, None))))"

subsection \<open>\<^verbatim>\<open>sendStats\<close>, \<^verbatim>\<open>collectAndSend\<close>\<close>

definition endpoint :: string where
  "endpoint = ''https://injest.lunar.dev''"

definition getUrl :: "string \<Rightarrow> string" where
  "getUrl node = endpoint @ ''/'' @ node"

text \<open>The verb \<^verbatim>\<open>%d\<close> of \<^verbatim>\<open>fmt.Sprintf\<close> on an \<^verbatim>\<open>int\<close>: decimal digits, a minus sign first.\<close>

fun decimal :: "nat \<Rightarrow> string" where
  "decimal n =
     (if n < 10 then [char_of (48 + n)]
      else decimal (n div 10) @ [char_of (48 + n mod 10)])"

declare decimal.simps [simp del]

definition formatInt :: "int \<Rightarrow> string" where
  "formatInt i = (if i < 0 then CHR ''-'' # decimal (nat (- i)) else decimal (nat i))"

definition sendStats :: "env \<Rightarrow> string \<Rightarrow> string \<Rightarrow> Stats \<Rightarrow> error option run" where
  "sendStats env node key s =
     (let u = getUrl node in
      case marshalStats env s of
        Inl msg \<Rightarrow> ret (Some (MarshalError msg))
      | Inr data \<Rightarrow>
          andThen (headerSet (newRequest env POST u data) ''x-api-key'' key) (\<lambda>req.
          andThen (headerSet req ''Content-Type'' ''application/json'') (\<lambda>req.
          andThen (doRequest env req) (\<lambda>r.
          case r of
            Inl err \<Rightarrow> ret (Some err)
          | Inr resp \<Rightarrow>
              if StatusCode resp > 399
              then ret (Some (ErrorsNew
                     (formatInt (StatusCode resp) @ '' '' @ Body resp @ [CHR 0x0A])))
              else ret None))))"

definition collectAndSend :: "env \<Rightarrow> string \<Rightarrow> string \<Rightarrow> unit run" where
  "collectAndSend env node key =
     andThen (collectStats env) (\<lambda>(stats, err).
     case err of
       Some e \<Rightarrow> ret ()
     | None \<Rightarrow> andThen (sendStats env node key stats) (\<lambda>err. ret ()))"

subsection \<open>\<^verbatim>\<open>start\<close>: the loop\<close>

text \<open>
  \<^verbatim>\<open>sleepTime\<close> is a \<^verbatim>\<open>time.Duration\<close>, a count of nanoseconds. The \<^verbatim>\<open>select\<close> of the loop
  receives from \<^verbatim>\<open>ticker.C\<close> or from \<^verbatim>\<open>ctx.Done()\<close>; the model is given the list of what
  it receives, in order, and the environment of each cycle (cycle 0 is the one at startup).
  When the list is used up the loop is blocked in \<^verbatim>\<open>select\<close>. A panic in a cycle is not
  recovered anywhere, so it ends the loop (and the process).

  The call at line 349 is written \<^verbatim>\<open>collectAndSend()\<close>, without arguments; it is modelled
  as the call of the loop body, \<^verbatim>\<open>collectAndSend(node, key)\<close>.
\<close>

definition sleepTime :: int where
  "sleepTime = 3 * (60 * 1000000000)"

datatype signal = TickerC | CtxDone

datatype loop_end = Exited | Blocked

fun selectLoop :: "(nat \<Rightarrow> env) \<Rightarrow> string \<Rightarrow> string \<Rightarrow> nat \<Rightarrow> signal list \<Rightarrow> loop_end run" where
  "selectLoop envs node key k [] = ret Blocked"
| "selectLoop envs node key k (CtxDone # sigs) = ret Exited"
| "selectLoop envs node key k (TickerC # sigs) =
     andThen (collectAndSend (envs k) node key) (\<lambda>_. selectLoop envs node key (Suc k) sigs)"

definition start :: "(nat \<Rightarrow> env) \<Rightarrow> signal list \<Rightarrow> string \<Rightarrow> string \<Rightarrow> bool \<Rightarrow> loop_end run" where
  "start envs ctx node key daemon =
     andThen (emit (NewTicker sleepTime) ()) (\<lambda>_.
     andThen (collectAndSend (envs 0) node key) (\<lambda>_.
     selectLoop envs node key 1 ctx))"

subsection \<open>The percentages of \<^verbatim>\<open>HostStats.String\<close>\<close>

text \<open>
  \<^verbatim>\<open>float64\<close> arithmetic is the exact operation followed by rounding to the nearest value
  with a 53-bit significand, ties to even. \<open>float64Round\<close> is that rounding for magnitudes
  in the normal range of the format, which holds all values met here: a \<^verbatim>\<open>uint64\<close>, a
  quotient of two of them, and a hundred times that. A division by zero gives an infinity
  or NaN in Go; the model has \<open>None\<close> there.
\<close>

definition roundEven :: "real \<Rightarrow> int" where
  "roundEven x =
     (let f = \<lfloor>x\<rfloor> in
      if x - of_int f < 1 / 2 then f
      else if 1 / 2 < x - of_int f then f + 1
      else if even f then f else f + 1)"

text \<open>
  \<open>binade x\<close> is the exponent \<open>e\<close> with \<open>2^e \<le> x < 2^(e+1)\<close> of a positive \<open>x\<close>, found by
  halving or doubling; \<open>ulp x\<close> is the spacing \<open>2^(e-52)\<close> of the 53-bit values around \<open>x\<close>.
\<close>

definition pow2 :: "int \<Rightarrow> real" where
  "pow2 e = (if 0 \<le> e then 2 ^ nat e else 1 / 2 ^ nat (- e))"

function binade :: "real \<Rightarrow> int" where
  "binade x =
     (if x \<le> 0 then 0
      else if x < 1 then binade (2 * x) - 1
      else if 2 \<le> x then binade (x / 2) + 1
      else 0)"
  by pat_completeness auto
termination
proof (relation "measure (\<lambda>x. if 1 \<le> x then nat \<lfloor>x\<rfloor> else nat \<lfloor>1 / x\<rfloor> + 1)")
  show "wf (measure (\<lambda>x::real. if 1 \<le> x then nat \<lfloor>x\<rfloor> else nat \<lfloor>1 / x\<rfloor> + 1))"
    by simp
next
  fix x :: real
  assume a: "\<not> x \<le> 0" "x < 1"
  have x1: "\<not> 1 \<le> x" using a by simp
  show "(2 * x, x) \<in> measure (\<lambda>x. if 1 \<le> x then nat \<lfloor>x\<rfloor> else nat \<lfloor>1 / x\<rfloor> + 1)"
  proof (cases "1 \<le> 2 * x")
    case True
    then have "2 * x < 2" using a by simp
    then have "\<lfloor>2 * x\<rfloor> \<le> 1" by linarith
    moreover have "1 < 1 / x" using a by simp
    then have "1 \<le> \<lfloor>1 / x\<rfloor>" by linarith
    ultimately have "nat \<lfloor>2 * x\<rfloor> < nat \<lfloor>1 / x\<rfloor> + 1" by linarith
    then show ?thesis unfolding in_measure by (simp only: True x1 if_True if_False)
  next
    case False
    then have "2 \<le> 1 / x" using a by (simp add: field_simps)
    then have "1 / x / 2 \<le> 1 / x - 1" by simp
    then have "\<lfloor>1 / x / 2\<rfloor> \<le> \<lfloor>1 / x - 1\<rfloor>" by (rule floor_mono)
    then have "\<lfloor>1 / x / 2\<rfloor> < \<lfloor>1 / x\<rfloor>" by simp
    moreover have "1 / (2 * x) = 1 / x / 2" by simp
    ultimately have "\<lfloor>1 / (2 * x)\<rfloor> < \<lfloor>1 / x\<rfloor>" by (simp only:)
    moreover have "0 < 1 / (2 * x)" using a by simp
    then have "0 \<le> \<lfloor>1 / (2 * x)\<rfloor>" by linarith
    ultimately have "nat \<lfloor>1 / (2 * x)\<rfloor> + 1 < nat \<lfloor>1 / x\<rfloor> + 1" by linarith
    then show ?thesis unfolding in_measure by (simp only: False x1 if_True if_False)
  qed
next
  fix x :: real
  assume a: "\<not> x \<le> 0" "\<not> x < 1" "2 \<le> x"
  have x1: "1 \<le> x" "1 \<le> x / 2" using a by simp_all
  have "x / 2 \<le> x - 1" using a by simp
  then have "\<lfloor>x / 2\<rfloor> \<le> \<lfloor>x - 1\<rfloor>" by (rule floor_mono)
  then have "\<lfloor>x / 2\<rfloor> < \<lfloor>x\<rfloor>" by simp
  moreover have "1 \<le> \<lfloor>x / 2\<rfloor>" using a by linarith
  ultimately have "nat \<lfloor>x / 2\<rfloor> < nat \<lfloor>x\<rfloor>" by linarith
  then show "(x / 2, x) \<in> measure (\<lambda>x. if 1 \<le> x then nat \<lfloor>x\<rfloor> else nat \<lfloor>1 / x\<rfloor> + 1)"
    unfolding in_measure by (simp only: x1 if_True)
qed

declare binade.simps [simp del]

definition ulp :: "real \<Rightarrow> real" where
  "ulp x = pow2 (binade \<bar>x\<bar> - 52)"

definition float64Round :: "real \<Rightarrow> float64" where
  "float64Round x = (if x = 0 then 0 else ulp x * of_int (roundEven (x / ulp x)))"

definition float64OfUint64 :: "uint64 \<Rightarrow> float64" where
  "float64OfUint64 w = float64Round (of_int (uint w))"

definition divFloat64 :: "float64 \<Rightarrow> float64 \<Rightarrow> float64 option" where
  "divFloat64 a b = (if b = 0 then None else Some (float64Round (a / b)))"

definition freePercent :: "uint64 \<Rightarrow> uint64 \<Rightarrow> float64 option" where
  "freePercent free tot =
     (case divFloat64 (float64OfUint64 free) (float64OfUint64 tot) of
        None \<Rightarrow> None
      | Some q \<Rightarrow> Some (float64Round (100 * q)))"

definition memP :: "HostStats \<Rightarrow> float64 option" where
  "memP s = freePercent (MemoryFree s) (MemoryTotal s)"

definition diskP :: "HostStats \<Rightarrow> float64 option" where
  "diskP s = freePercent (DiskFree s) (DiskTotal s)"

subsection \<open>Requests\<close>

text \<open>
  The three shapes of request the program sends: the \<^verbatim>\<open>client.Get\<close> of \<^verbatim>\<open>queryVersion\<close> and
  \<^verbatim>\<open>queryStatus\<close>, the POST of \<^verbatim>\<open>queryNode\<close> and \<^verbatim>\<open>queryBalance\<close>, and the POST of
  \<^verbatim>\<open>sendStats\<close>. They are used to state what appears in a list of events.
\<close>

definition getRequest :: "string \<Rightarrow> request" where
  "getRequest u = \<lparr>Method = GET, URL = u, Header = [], ReqBody = []\<rparr>"

definition addressRequest :: "string \<Rightarrow> string \<Rightarrow> request" where
  "addressRequest u data =
     \<lparr>Method = POST, URL = u, Header = [(''Content-Type'', ''application/json'')],
      ReqBody = data\<rparr>"

definition collectorRequest :: "string \<Rightarrow> string \<Rightarrow> string \<Rightarrow> request" where
  "collectorRequest node key data =
     \<lparr>Method = POST, URL = getUrl node,
      Header = [(''x-api-key'', key), (''Content-Type'', ''application/json'')],
      ReqBody = data\<rparr>"

subsection \<open>Reading a list of events\<close>

fun httpCalls :: "event list \<Rightarrow> request list" where
  "httpCalls [] = []"
| "httpCalls (HttpCall r # es) = r # httpCalls es"
| "httpCalls (e # es) = httpCalls es"

definition callsOf :: "event list \<Rightarrow> (http_method \<times> string) list" where
  "callsOf es = map (\<lambda>r. (Method r, URL r)) (httpCalls es)"

text \<open>The four calls of \<^verbatim>\<open>collectNodeStats\<close>, in the order of the source text.\<close>

definition rpcPlan :: "(http_method \<times> string) list" where
  "rpcPlan = [(GET, versionUrl), (GET, statusUrl), (POST, nodeUrl), (POST, balanceUrl)]"

definition isLocal :: "request \<Rightarrow> bool" where
  "isLocal r = (URL r = versionUrl \<or> URL r = statusUrl \<or> URL r = nodeUrl \<or> URL r = balanceUrl)"

definition toCollector :: "request \<Rightarrow> bool" where
  "toCollector r = (take (length endpoint) (URL r) = endpoint)"

text \<open>
  A local call fails when the transport gives an error or when the body does not decode
  into the target of the query that made the call: a string for the version, a map for the
  other three.
\<close>

definition rpcFails :: "env \<Rightarrow> request \<Rightarrow> bool" where
  "rpcFails env r =
     (case transport env r of
        Inl msg \<Rightarrow> True
      | Inr resp \<Rightarrow>
          if URL r = versionUrl then isl (decodeString env (Body resp))
          else isl (decodeObject env (Body resp)))"

subsection \<open>Sample environments\<close>

text \<open>
  A node at height 1000000 with moniker alice, on a Linux host with 16 GiB of memory, and
  a collector that accepts every report. The codec of the sample environment knows the
  bodies the sample node serves and rejects every other text.
\<close>

definition versionText :: string where
  \<open>versionText = ''"RC-0.6.3"''\<close>

definition statusText :: string where
  \<open>statusText = ''{"result":{"node_info":{"id":"ab12cd34","moniker":"alice"},"sync_info":{"latest_block_height":"1000000","latest_block_time":"2021-06-01T10:00:00Z","catching_up":false}}}''\<close>

definition statusJson :: jmap where
  "statusJson =
     [(''result'', JObject
        [(''node_info'', JObject [(''id'', JString ''ab12cd34''), (''moniker'', JString ''alice'')]),
         (''sync_info'', JObject
            [(''latest_block_height'', JString ''1000000''),
             (''latest_block_time'', JString ''2021-06-01T10:00:00Z''),
             (''catching_up'', JBool False)])])]"

definition statusNoSyncText :: string where
  \<open>statusNoSyncText = ''{"result":{"node_info":{"id":"ab12cd34","moniker":"alice"}}}''\<close>

definition statusNoSyncJson :: jmap where
  "statusNoSyncJson =
     [(''result'', JObject
        [(''node_info'', JObject [(''id'', JString ''ab12cd34''), (''moniker'', JString ''alice'')])])]"

definition statusOddText :: string where
  \<open>statusOddText = ''{"result":{"node_info":{"id":"","moniker":"alice"},"sync_info":{"latest_block_height":"-1","latest_block_time":"2021-06-01T10:00:00Z","catching_up":false}}}''\<close>

definition statusOddJson :: jmap where
  "statusOddJson =
     [(''result'', JObject
        [(''node_info'', JObject [(''id'', JString []), (''moniker'', JString ''alice'')]),
         (''sync_info'', JObject
            [(''latest_block_height'', JString ''-1''),
             (''latest_block_time'', JString ''2021-06-01T10:00:00Z''),
             (''catching_up'', JBool False)])])]"

definition nodeText :: string where
  \<open>nodeText = ''{"public_key":"5f0a","jailed":false,"service_url":"https://node1.example:443"}''\<close>

definition nodeJson :: jmap where
  "nodeJson =
     [(''public_key'', JString ''5f0a''), (''jailed'', JBool False),
      (''service_url'', JString ''https://node1.example:443'')]"

definition nodeOddText :: string where
  \<open>nodeOddText = ''{"public_key":"","jailed":false,"service_url":""}''\<close>

definition nodeOddJson :: jmap where
  "nodeOddJson =
     [(''public_key'', JString []), (''jailed'', JBool False), (''service_url'', JString [])]"

definition balanceText :: string where
  \<open>balanceText = ''{"balance":42.5}''\<close>

definition balanceJson :: jmap where
  "balanceJson = [(''balance'', JNumber (85 / 2))]"

definition sampleDecodeObject :: "string \<Rightarrow> string + jmap" where
  "sampleDecodeObject b =
     (if b = statusText then Inr statusJson
      else if b = statusNoSyncText then Inr statusNoSyncJson
      else if b = statusOddText then Inr statusOddJson
      else if b = nodeText then Inr nodeJson
      else if b = nodeOddText then Inr nodeOddJson
      else if b = balanceText then Inr balanceJson
      else Inl ''invalid character'')"

definition sampleDecodeString :: "string \<Rightarrow> string + string" where
  "sampleDecodeString b =
     (if b = versionText then Inr ''RC-0.6.3'' else Inl ''invalid character'')"

definition sampleMarshalAddress :: "string \<Rightarrow> string + string" where
  \<open>sampleMarshalAddress a = Inr (''{"address":"'' @ a @ ''"}'')\<close>

definition sampleMarshalStats :: "Stats \<Rightarrow> string + string" where
  \<open>sampleMarshalStats s =
     Inr (''{"version":"'' @ Version s @ ''","timestamp":"'' @ Timestamp s @ ''"}'')\<close>

text \<open>
  The sample network: the local node serves \<open>sb\<close> on \<^verbatim>\<open>/status\<close> and \<open>nb\<close> on
  \<^verbatim>\<open>/v1/query/node\<close>, all with status \<open>lc\<close>; every other URL is the collector, which answers
  with status \<open>cc\<close>.
\<close>

definition sampleTransport :: "string \<Rightarrow> string \<Rightarrow> int \<Rightarrow> int \<Rightarrow> request \<Rightarrow> string + response" where
  "sampleTransport sb nb lc cc req =
     (if URL req = versionUrl then Inr \<lparr>StatusCode = lc, Body = versionText\<rparr>
      else if URL req = statusUrl then Inr \<lparr>StatusCode = lc, Body = sb\<rparr>
      else if URL req = nodeUrl then Inr \<lparr>StatusCode = lc, Body = nb\<rparr>
      else if URL req = balanceUrl then Inr \<lparr>StatusCode = lc, Body = balanceText\<rparr>
      else Inr \<lparr>StatusCode = cc,
                Body = (if cc < 400 then ''accepted'' else ''quota exceeded'')\<rparr>)"

definition sampleEnv :: "(request \<Rightarrow> string + response) \<Rightarrow> env" where
  "sampleEnv tr =
     \<lparr>transport = tr,
      urlParses = (\<lambda>u. True),
      decodeObject = sampleDecodeObject,
      decodeString = sampleDecodeString,
      marshalAddress = sampleMarshalAddress,
      marshalStats = sampleMarshalStats,
      nowRFC3339 = ''2021-06-01T10:00:05Z'',
      GOOS = ''linux'',
      virtualMemory = Inr (17179869184, 4294967296),
      diskUsage = (\<lambda>p. Inr (100000000000, 40000000000)),
      cpuPercent = Inr [25 / 2],
      hostInfo = Inr (''ubuntu'', 86400)\<rparr>"

definition healthyEnv :: env where
  "healthyEnv = sampleEnv (sampleTransport statusText nodeText 200 200)"

definition noSyncInfoEnv :: env where
  "noSyncInfoEnv = sampleEnv (sampleTransport statusNoSyncText nodeText 200 200)"

definition oddValuesEnv :: env where
  "oddValuesEnv = sampleEnv (sampleTransport statusOddText nodeOddText 200 200)"

definition nodeDownEnv :: env where
  "nodeDownEnv = sampleEnv (\<lambda>req. Inl ''connection refused'')"

definition rejectingEnv :: env where
  "rejectingEnv = sampleEnv (sampleTransport statusText nodeText 200 500)"

definition localErrorStatusEnv :: env where
  "localErrorStatusEnv = sampleEnv (sampleTransport statusText nodeText 500 200)"

text \<open>What the node read returns in \<open>healthyEnv\<close> and in \<open>oddValuesEnv\<close>.\<close>

definition healthyNodeStats :: NodeStats where
  "healthyNodeStats =
     \<lparr>Chain = ''pocket'', AppVersion = ''RC-0.6.3'', Moniker = ''alice'', Height = 1000000,
      LatestBlockTime = ''2021-06-01T10:00:00Z'', CatchingUp = False, Balance = 85 / 2,
      Chains = [], Jailed = False, ServiceUrl = ''https://node1.example:443'',
      Address = ''ab12cd34'', PublicKey = ''5f0a''\<rparr>"

definition oddNodeStats :: NodeStats where
  "oddNodeStats =
     \<lparr>Chain = ''pocket'', AppVersion = ''RC-0.6.3'', Moniker = ''alice'', Height = - 1,
      LatestBlockTime = ''2021-06-01T10:00:00Z'', CatchingUp = False, Balance = 85 / 2,
      Chains = [], Jailed = False, ServiceUrl = [], Address = [], PublicKey = []\<rparr>"

text \<open>A host whose disk cannot be queried, and a node that serves an invalid version body.\<close>

definition diskFailsEnv :: env where
  "diskFailsEnv = healthyEnv\<lparr>diskUsage := (\<lambda>p. Inl ''no such file or directory'')\<rparr>"

definition healthyHostStats :: HostStats where
  "healthyHostStats =
     \<lparr>MemoryTotal = 17179869184, MemoryFree = 4294967296, DiskTotal = 100000000000,
      DiskFree = 40000000000, Uptime = 86400, Platform = ''ubuntu'',
      CPUUsagePercent = 25 / 2\<rparr>"

text \<open>Every cycle reads the clock once, first; the cycles begun are counted by that.\<close>

definition cyclesBegun :: "event list \<Rightarrow> nat" where
  "cyclesBegun es = length (filter (\<lambda>e. e = ClockNow) es)"

text \<open>
  A run of the loop in which the node is healthy at startup and serves a \<^verbatim>\<open>/status\<close> body
  without \<^verbatim>\<open>sync_info\<close> from the first tick on.
\<close>

definition syncInfoLostEnvs :: "nat \<Rightarrow> env" where
  "syncInfoLostEnvs k = (if k = 0 then healthyEnv else noSyncInfoEnv)"

text \<open>A \<^verbatim>\<open>HostStats\<close> value whose free figures are above its totals.\<close>

definition overfullHostStats :: HostStats where
  "overfullHostStats =
     \<lparr>MemoryTotal = 1, MemoryFree = 2, DiskTotal = 1, DiskFree = 2, Uptime = 0,
      Platform = ''linux'', CPUUsagePercent = 0\<rparr>"

section \<open>Properties\<close>

subsection \<open>Rules for runs\<close>

lemma andThen_ret [simp]: "andThen (ret a) f = f a"
  by (simp add: andThen_def ret_def split: prod.splits)

lemma andThen_raise_panic [simp]: "andThen (raise_panic p) f = raise_panic p"
  by (simp add: andThen_def raise_panic_def)

lemma andThen_emit [simp]: "andThen (emit e a) f = (e # fst (f a), snd (f a))"
  by (simp add: andThen_def emit_def split: prod.splits)

lemma andThen_Returns [simp]: "andThen (t, Returns a) f = (t @ fst (f a), snd (f a))"
  by (simp add: andThen_def split: prod.splits)

lemma andThen_Panics [simp]: "andThen (t, Panics p) f = (t, Panics p)"
  by (simp add: andThen_def)

lemma fst_ret [simp]: "fst (ret a) = []"
  by (simp add: ret_def)

lemma snd_ret [simp]: "snd (ret a) = Returns a"
  by (simp add: ret_def)

lemma fst_raise_panic [simp]: "fst (raise_panic p) = []"
  by (simp add: raise_panic_def)

lemma snd_raise_panic [simp]: "snd (raise_panic p) = Panics p"
  by (simp add: raise_panic_def)

lemmas assert_defs = assertObject_def assertString_def assertBool_def assertFloat64_def
  assertObjectOk_def

lemmas url_defs = versionUrl_def statusUrl_def nodeUrl_def balanceUrl_def

lemmas query_defs = queryVersion_def queryStatus_def queryNode_def queryBalance_def
  postAddress_def clientGet_def clientDo_def newRequest_def headerSet_def doRequest_def

lemmas sample_defs = sampleEnv_def sampleTransport_def sampleDecodeObject_def
  sampleDecodeString_def sampleMarshalAddress_def sampleMarshalStats_def
  versionText_def statusText_def statusJson_def statusNoSyncText_def statusNoSyncJson_def
  statusOddText_def statusOddJson_def nodeText_def nodeJson_def nodeOddText_def
  nodeOddJson_def balanceText_def balanceJson_def

text \<open>A type assertion that is followed by a return did not panic.\<close>

lemma assertObject_andThenE:
  assumes "andThen (assertObject v) f = (t, Returns x)"
  obtains m where "v = Some (JObject m)" and "f m = (t, Returns x)"
  using assms unfolding assertObject_def
  by (cases v; cases "the v") (auto simp: raise_panic_def)

lemma assertString_andThenE:
  assumes "andThen (assertString v) f = (t, Returns x)"
  obtains s where "v = Some (JString s)" and "f s = (t, Returns x)"
  using assms unfolding assertString_def
  by (cases v; cases "the v") (auto simp: raise_panic_def)

lemma assertBool_andThenE:
  assumes "andThen (assertBool v) f = (t, Returns x)"
  obtains b where "v = Some (JBool b)" and "f b = (t, Returns x)"
  using assms unfolding assertBool_def
  by (cases v; cases "the v") (auto simp: raise_panic_def)

lemma assertFloat64_andThenE:
  assumes "andThen (assertFloat64 v) f = (t, Returns x)"
  obtains b where "v = Some (JNumber b)" and "f b = (t, Returns x)"
  using assms unfolding assertFloat64_def
  by (cases v; cases "the v") (auto simp: raise_panic_def)

lemmas assert_andThenE = assertObject_andThenE assertString_andThenE assertBool_andThenE
  assertFloat64_andThenE

subsection \<open>C1: a \<^verbatim>\<open>/status\<close> payload without \<^verbatim>\<open>sync_info\<close>\<close>

text \<open>
  Only the outer field \<^verbatim>\<open>result\<close> is read with the two-valued assertion and reported as
  an error (\<^verbatim>\<open>Invalid data from /status call\<close>). The nested fields are read with the
  one-valued form. Whatever the rest of the payload, the only error \<open>readStatus\<close> can return
  is a failed \<^verbatim>\<open>ParseInt\<close>; a field that is absent or of another type is never an error.
\<close>

lemma readStatus_error_is_NumError:
  assumes "readStatus s status = (t, Returns (s', Some e))"
  shows "\<exists>hs k. e = NumError hs k \<and> ParseInt hs = Inl k"
  using assms unfolding readStatus_def
  by (elim assert_andThenE)
    (auto simp: Let_def ret_def split: sum.splits elim!: assert_andThenE)

lemma readStatus_without_sync_info:
  assumes "map_of status ''node_info'' = Some (JObject ni)"
    and "map_of ni ''id'' = Some (JString a)"
    and "map_of ni ''moniker'' = Some (JString m)"
    and "assertObjectOk (map_of status ''sync_info'') = None"
  shows "readStatus s status = ([], Panics (InterfaceConversion ''map[string]interface {}''))"
proof -
  have "assertObject (map_of status ''sync_info'') =
          raise_panic (InterfaceConversion ''map[string]interface {}'')"
    using assms(4) by (auto simp: assert_defs split: option.splits json.splits)
  then show ?thesis
    using assms(1-3)
    by (simp add: readStatus_def assertObject_def assertString_def raise_panic_def)
qed

text \<open>
  For every environment: when the version and status queries succeed and the status
  answer has \<^verbatim>\<open>result.node_info\<close> with its two strings but no map under
  \<^verbatim>\<open>result.sync_info\<close>, \<^verbatim>\<open>collectNodeStats\<close> panics.
\<close>

lemma collectNodeStats_panics_without_sync_info:
  assumes "snd (queryVersion env) = Returns (ver, None)"
    and "snd (queryStatus env) = Returns (sr, None)"
    and "map_of sr ''result'' = Some (JObject status)"
    and "map_of status ''node_info'' = Some (JObject ni)"
    and "map_of ni ''id'' = Some (JString a)"
    and "map_of ni ''moniker'' = Some (JString m)"
    and "assertObjectOk (map_of status ''sync_info'') = None"
  shows "snd (collectNodeStats env) = Panics (InterfaceConversion ''map[string]interface {}'')"
proof -
  obtain tv where v: "queryVersion env = (tv, Returns (ver, None))"
    using assms(1) by (cases "queryVersion env") simp
  obtain ts where s: "queryStatus env = (ts, Returns (sr, None))"
    using assms(2) by (cases "queryStatus env") simp
  show ?thesis
    using assms(3) readStatus_without_sync_info [OF assms(4-7)]
    by (simp add: collectNodeStats_def v s assertObjectOk_def)
qed

text \<open>
  C1. The claim: when \<^verbatim>\<open>sync_info\<close> (or another expected nested field) is absent from the
  \<^verbatim>\<open>/status\<close> payload, \<^verbatim>\<open>collectNodeStats\<close> returns an error and does not crash. The code
  does not do that. With the sample node serving a \<^verbatim>\<open>/status\<close> body that has
  \<^verbatim>\<open>result.node_info\<close> and no \<^verbatim>\<open>result.sync_info\<close>, \<^verbatim>\<open>collectNodeStats\<close> makes the version
  and status calls and then panics in the type assertion of line 241; no error value is
  returned.
\<close>

theorem collectNodeStats_without_sync_info_panics:
  "collectNodeStats noSyncInfoEnv =
     ([HttpCall \<lparr>Method = GET, URL = versionUrl, Header = [], ReqBody = []\<rparr>,
       HttpCall \<lparr>Method = GET, URL = statusUrl, Header = [], ReqBody = []\<rparr>],
      Panics (InterfaceConversion ''map[string]interface {}''))"
  by (simp add: collectNodeStats_def readStatus_def query_defs noSyncInfoEnv_def
      sample_defs url_defs assert_defs)

subsection \<open>C3: the status code decides the outcome of \<^verbatim>\<open>sendStats\<close>\<close>

lemma sendStats_received:
  assumes "marshalStats env s = Inr data"
    and "urlParses env (getUrl node)"
    and "transport env (collectorRequest node key data) = Inr resp"
  shows "sendStats env node key s =
           ([HttpCall (collectorRequest node key data)],
            Returns (if StatusCode resp > 399
                     then Some (ErrorsNew
                            (formatInt (StatusCode resp) @ '' '' @ Body resp @ [CHR 0x0A]))
                     else None))"
  using assms
  by (simp add: sendStats_def collectorRequest_def newRequest_def headerSet_def doRequest_def
      clientDo_def ret_def)

text \<open>
  C3. Once the report is serialised, the request built and a response received,
  \<^verbatim>\<open>sendStats\<close> returns nil exactly when the status code is below 400; from 400 on it
  returns the error whose text is the code in decimal, a space, the body of the response
  and a newline.
\<close>

theorem sendStats_succeeds_iff_below_400:
  assumes "marshalStats env s = Inr data"
    and "urlParses env (getUrl node)"
    and "transport env (collectorRequest node key data) = Inr resp"
  shows "(result (sendStats env node key s) = Returns None \<longleftrightarrow> StatusCode resp < 400) \<and>
         (400 \<le> StatusCode resp \<longrightarrow>
            result (sendStats env node key s) =
              Returns (Some (ErrorsNew
                (formatInt (StatusCode resp) @ '' '' @ Body resp @ [CHR 0x0A])))) \<and>
         (StatusCode resp < 400 \<longrightarrow> result (sendStats env node key s) = Returns None)"
  using sendStats_received [OF assms] by (simp add: result_def)

lemma formatInt_500: "formatInt 500 = ''500''"
  by code_simp

theorem sendStats_succeeds_iff_below_400_witness:
  "marshalStats rejectingEnv zeroStats = Inr ''{\"version\":\"\",\"timestamp\":\"\"}'' \<and>
   urlParses rejectingEnv (getUrl ''n1'') \<and>
   transport rejectingEnv
       (collectorRequest ''n1'' ''k1'' ''{\"version\":\"\",\"timestamp\":\"\"}'')
     = Inr \<lparr>StatusCode = 500, Body = ''quota exceeded''\<rparr> \<and>
   result (sendStats rejectingEnv ''n1'' ''k1'' zeroStats)
     = Returns (Some (ErrorsNew (''500 quota exceeded'' @ [CHR 0x0A]))) \<and>
   result (sendStats rejectingEnv ''n1'' ''k1'' zeroStats) \<noteq> Returns None \<and>
   marshalStats healthyEnv zeroStats = Inr ''{\"version\":\"\",\"timestamp\":\"\"}'' \<and>
   urlParses healthyEnv (getUrl ''n1'') \<and>
   transport healthyEnv
       (collectorRequest ''n1'' ''k1'' ''{\"version\":\"\",\"timestamp\":\"\"}'')
     = Inr \<lparr>StatusCode = 200, Body = ''accepted''\<rparr> \<and>
   result (sendStats healthyEnv ''n1'' ''k1'' zeroStats) = Returns None"
proof -
  let ?d = "''{\"version\":\"\",\"timestamp\":\"\"}''"
  have m: "marshalStats rejectingEnv zeroStats = Inr ?d"
    by (simp add: rejectingEnv_def sample_defs zeroStats_def)
  have u: "urlParses rejectingEnv (getUrl ''n1'')"
    by (simp add: rejectingEnv_def sample_defs)
  have t: "transport rejectingEnv (collectorRequest ''n1'' ''k1'' ?d)
           = Inr \<lparr>StatusCode = 500, Body = ''quota exceeded''\<rparr>"
    by (simp add: rejectingEnv_def sample_defs collectorRequest_def getUrl_def endpoint_def
        url_defs)
  have m': "marshalStats healthyEnv zeroStats = Inr ?d"
    by (simp add: healthyEnv_def sample_defs zeroStats_def)
  have u': "urlParses healthyEnv (getUrl ''n1'')"
    by (simp add: healthyEnv_def sample_defs)
  have t': "transport healthyEnv (collectorRequest ''n1'' ''k1'' ?d)
            = Inr \<lparr>StatusCode = 200, Body = ''accepted''\<rparr>"
    by (simp add: healthyEnv_def sample_defs collectorRequest_def getUrl_def endpoint_def
        url_defs)
  have r: "result (sendStats rejectingEnv ''n1'' ''k1'' zeroStats)
             = Returns (Some (ErrorsNew (''500 quota exceeded'' @ [CHR 0x0A])))"
    using sendStats_succeeds_iff_below_400 [OF m u t] by (simp add: formatInt_500)
  have h: "result (sendStats healthyEnv ''n1'' ''k1'' zeroStats) = Returns None"
    using sendStats_succeeds_iff_below_400 [OF m' u' t'] by simp
  show ?thesis
    using m u t r m' u' t' h by simp
qed

subsection \<open>C10: the local queries do not look at the status code\<close>

lemma postAddress_received:
  assumes "marshalAddress env addr = Inr data"
    and "urlParses env u"
    and "transport env (addressRequest u data) = Inr \<lparr>StatusCode = c, Body = b\<rparr>"
    and "decodeObject env b = Inr m"
  shows "postAddress env u addr = ([HttpCall (addressRequest u data)], Returns (m, None))"
  using assms
  by (simp add: postAddress_def addressRequest_def newRequest_def headerSet_def doRequest_def
      clientDo_def ret_def)

lemma queryStatus_received:
  assumes "transport env (getRequest statusUrl) = Inr \<lparr>StatusCode = c, Body = b\<rparr>"
    and "decodeObject env b = Inr m"
  shows "queryStatus env = ([HttpCall (getRequest statusUrl)], Returns (m, None))"
  using assms
  by (simp add: queryStatus_def getRequest_def clientGet_def clientDo_def ret_def)

text \<open>
  C10. \<^verbatim>\<open>queryStatus\<close>, \<^verbatim>\<open>queryNode\<close> and \<^verbatim>\<open>queryBalance\<close> return the decoded body with a
  nil error whenever a response arrives and its body decodes, for every status code \<open>c\<close>
  of that response: a reply with status 500 and a JSON body is a successful query.
\<close>

theorem queries_ignore_status_code:
  "(transport env (getRequest statusUrl) = Inr \<lparr>StatusCode = c, Body = b\<rparr> \<and>
    decodeObject env b = Inr m
      \<longrightarrow> result (queryStatus env) = Returns (m, None)) \<and>
   (marshalAddress env addr = Inr data \<and> urlParses env nodeUrl \<and>
    transport env (addressRequest nodeUrl data) = Inr \<lparr>StatusCode = c, Body = b\<rparr> \<and>
    decodeObject env b = Inr m
      \<longrightarrow> result (queryNode env addr) = Returns (m, None)) \<and>
   (marshalAddress env addr = Inr data \<and> urlParses env balanceUrl \<and>
    transport env (addressRequest balanceUrl data) = Inr \<lparr>StatusCode = c, Body = b\<rparr> \<and>
    decodeObject env b = Inr m
      \<longrightarrow> result (queryBalance env addr) = Returns (m, None))"
  by (auto simp: result_def queryNode_def queryBalance_def
      postAddress_received queryStatus_received)

theorem queries_ignore_status_code_witness:
  "transport localErrorStatusEnv (getRequest statusUrl)
     = Inr \<lparr>StatusCode = 500, Body = statusText\<rparr> \<and>
   decodeObject localErrorStatusEnv statusText = Inr statusJson \<and>
   result (queryStatus localErrorStatusEnv) = Returns (statusJson, None) \<and>
   marshalAddress localErrorStatusEnv ''ab12cd34'' = Inr ''{\"address\":\"ab12cd34\"}'' \<and>
   urlParses localErrorStatusEnv nodeUrl \<and>
   transport localErrorStatusEnv (addressRequest nodeUrl ''{\"address\":\"ab12cd34\"}'')
     = Inr \<lparr>StatusCode = 500, Body = nodeText\<rparr> \<and>
   decodeObject localErrorStatusEnv nodeText = Inr nodeJson \<and>
   result (queryNode localErrorStatusEnv ''ab12cd34'') = Returns (nodeJson, None) \<and>
   urlParses localErrorStatusEnv balanceUrl \<and>
   transport localErrorStatusEnv (addressRequest balanceUrl ''{\"address\":\"ab12cd34\"}'')
     = Inr \<lparr>StatusCode = 500, Body = balanceText\<rparr> \<and>
   decodeObject localErrorStatusEnv balanceText = Inr balanceJson \<and>
   result (queryBalance localErrorStatusEnv ''ab12cd34'') = Returns (balanceJson, None)"
proof -
  let ?e = localErrorStatusEnv
  let ?d = "''{\"address\":\"ab12cd34\"}''"
  have ts: "transport ?e (getRequest statusUrl) = Inr \<lparr>StatusCode = 500, Body = statusText\<rparr>"
    by (simp add: localErrorStatusEnv_def sampleEnv_def sampleTransport_def getRequest_def
        url_defs)
  have ds: "decodeObject ?e statusText = Inr statusJson"
    by (simp add: localErrorStatusEnv_def sampleEnv_def sampleDecodeObject_def)
  have ma: "marshalAddress ?e ''ab12cd34'' = Inr ?d"
    by (simp add: localErrorStatusEnv_def sampleEnv_def sampleMarshalAddress_def)
  have u: "urlParses ?e nodeUrl" "urlParses ?e balanceUrl"
    by (simp_all add: localErrorStatusEnv_def sampleEnv_def)
  have tn: "transport ?e (addressRequest nodeUrl ?d) = Inr \<lparr>StatusCode = 500, Body = nodeText\<rparr>"
    by (simp add: localErrorStatusEnv_def sampleEnv_def sampleTransport_def addressRequest_def
        url_defs)
  have dn: "decodeObject ?e nodeText = Inr nodeJson"
    by (simp add: localErrorStatusEnv_def sample_defs)
  have tb: "transport ?e (addressRequest balanceUrl ?d)
              = Inr \<lparr>StatusCode = 500, Body = balanceText\<rparr>"
    by (simp add: localErrorStatusEnv_def sampleEnv_def sampleTransport_def addressRequest_def
        url_defs)
  have db: "decodeObject ?e balanceText = Inr balanceJson"
    by (simp add: localErrorStatusEnv_def sample_defs)
  have s: "result (queryStatus ?e) = Returns (statusJson, None)"
    using queries_ignore_status_code [of ?e 500 statusText statusJson] ts ds by simp
  have n: "result (queryNode ?e ''ab12cd34'') = Returns (nodeJson, None)"
    using queries_ignore_status_code [of ?e 500 nodeText nodeJson "''ab12cd34''" ?d]
      ma u tn dn by simp
  have b: "result (queryBalance ?e ''ab12cd34'') = Returns (balanceJson, None)"
    using queries_ignore_status_code [of ?e 500 balanceText balanceJson "''ab12cd34''" ?d]
      ma u tb db by simp
  show ?thesis
    using ts ds s ma u tn dn n tb db b by simp
qed

subsection \<open>The node read, case by case\<close>

text \<open>
  The queries written out, then \<^verbatim>\<open>collectNodeStats\<close> split by the number of calls it makes:
  after one, two, three or four calls without success, or with success after four.
\<close>

lemma queryVersion_run:
  "queryVersion env =
     ([HttpCall (getRequest versionUrl)],
      Returns (case transport env (getRequest versionUrl) of
                 Inl msg \<Rightarrow> ([], Some (TransportError msg))
               | Inr resp \<Rightarrow>
                   (case decodeString env (Body resp) of
                      Inl msg \<Rightarrow> ([], Some (DecodeError msg))
                    | Inr v \<Rightarrow> (v, None))))"
  by (simp add: queryVersion_def clientGet_def clientDo_def getRequest_def ret_def
      split: sum.splits)

lemma queryStatus_run:
  "queryStatus env =
     ([HttpCall (getRequest statusUrl)],
      Returns (case transport env (getRequest statusUrl) of
                 Inl msg \<Rightarrow> ([], Some (TransportError msg))
               | Inr resp \<Rightarrow>
                   (case decodeObject env (Body resp) of
                      Inl msg \<Rightarrow> ([], Some (DecodeError msg))
                    | Inr m \<Rightarrow> (m, None))))"
  by (simp add: queryStatus_def clientGet_def clientDo_def getRequest_def ret_def
      split: sum.splits)

lemma postAddress_run:
  "postAddress env u a =
     (case marshalAddress env a of
        Inl msg \<Rightarrow> ([], Returns ([], Some (MarshalError msg)))
      | Inr d \<Rightarrow>
          if urlParses env u
          then ([HttpCall (addressRequest u d)],
                Returns (case transport env (addressRequest u d) of
                           Inl msg \<Rightarrow> ([], Some (TransportError msg))
                         | Inr resp \<Rightarrow>
                             (case decodeObject env (Body resp) of
                                Inl msg \<Rightarrow> ([], Some (DecodeError msg))
                              | Inr m \<Rightarrow> (m, None))))
          else ([], Panics NilPointerDereference))"
  by (simp add: postAddress_def addressRequest_def newRequest_def headerSet_def doRequest_def
      clientDo_def ret_def raise_panic_def split: sum.splits)

lemma queryVersion_ok_not_fails:
  assumes "snd (queryVersion env) = Returns (v, None)"
  shows "\<not> rpcFails env (getRequest versionUrl)"
  using assms
  by (auto simp: queryVersion_run rpcFails_def getRequest_def split: sum.splits)

lemma queryStatus_ok_not_fails:
  assumes "snd (queryStatus env) = Returns (m, None)"
  shows "\<not> rpcFails env (getRequest statusUrl)"
  using assms
  by (auto simp: queryStatus_run rpcFails_def getRequest_def url_defs split: sum.splits)

lemma postAddress_ok:
  assumes "postAddress env u a = (t, Returns (m, None))"
  obtains d where "marshalAddress env a = Inr d" and "urlParses env u"
    and "t = [HttpCall (addressRequest u d)]"
    and "u \<noteq> versionUrl \<Longrightarrow> \<not> rpcFails env (addressRequest u d)"
  using assms
  by (auto simp: postAddress_run rpcFails_def addressRequest_def split: sum.splits if_splits)

lemma assertString_cases:
  obtains (panics) "assertString v = raise_panic (InterfaceConversion ''string'')"
  | (ok) s where "v = Some (JString s)" and "assertString v = ret s"
  by (cases v; cases "the v") (auto simp: assertString_def)

lemma assertBool_cases:
  obtains (panics) "assertBool v = raise_panic (InterfaceConversion ''bool'')"
  | (ok) b where "v = Some (JBool b)" and "assertBool v = ret b"
  by (cases v; cases "the v") (auto simp: assertBool_def)

lemma assertFloat64_cases:
  obtains (panics) "assertFloat64 v = raise_panic (InterfaceConversion ''float64'')"
  | (ok) x where "v = Some (JNumber x)" and "assertFloat64 v = ret x"
  by (cases v; cases "the v") (auto simp: assertFloat64_def)

lemma assertObject_cases:
  obtains (panics) "assertObject v = raise_panic (InterfaceConversion ''map[string]interface {}'')"
  | (ok) m where "v = Some (JObject m)" and "assertObject v = ret m"
  by (cases v; cases "the v") (auto simp: assertObject_def)

lemma readNodeAndBalance_cases [case_names none node balance ok]:
  obtains
    (none) "fst (readNodeAndBalance env s) = []"
      and "\<forall>s'. snd (readNodeAndBalance env s) \<noteq> Returns (s', None)"
  | (node) d where "marshalAddress env (Address s) = Inr d"
      and "fst (readNodeAndBalance env s) = [HttpCall (addressRequest nodeUrl d)]"
      and "\<forall>s'. snd (readNodeAndBalance env s) \<noteq> Returns (s', None)"
      and "(\<exists>nr. snd (queryNode env (Address s)) = Returns (nr, None)) \<or>
           (\<exists>s' e. snd (readNodeAndBalance env s) = Returns (s', Some e))"
  | (balance) d nr where "marshalAddress env (Address s) = Inr d"
      and "fst (readNodeAndBalance env s) =
             [HttpCall (addressRequest nodeUrl d), HttpCall (addressRequest balanceUrl d)]"
      and "snd (queryNode env (Address s)) = Returns (nr, None)"
      and "\<forall>s'. snd (readNodeAndBalance env s) \<noteq> Returns (s', None)"
      and "(\<exists>br. snd (queryBalance env (Address s)) = Returns (br, None)) \<or>
           (\<exists>s' e. snd (readNodeAndBalance env s) = Returns (s', Some e))"
  | (ok) d nr br pk j su bal where "marshalAddress env (Address s) = Inr d"
      and "snd (queryNode env (Address s)) = Returns (nr, None)"
      and "snd (queryBalance env (Address s)) = Returns (br, None)"
      and "map_of nr ''public_key'' = Some (JString pk)"
      and "map_of nr ''jailed'' = Some (JBool j)"
      and "map_of nr ''service_url'' = Some (JString su)"
      and "map_of br ''balance'' = Some (JNumber bal)"
      and "readNodeAndBalance env s =
             ([HttpCall (addressRequest nodeUrl d), HttpCall (addressRequest balanceUrl d)],
              Returns (s\<lparr>PublicKey := pk, Jailed := j, ServiceUrl := su, Balance := bal\<rparr>, None))"
proof (cases "marshalAddress env (Address s)")
  case (Inl msg)
  then have "readNodeAndBalance env s = ([], Returns (s, Some (MarshalError msg)))"
    by (simp add: readNodeAndBalance_def queryNode_def postAddress_run)
  then show thesis using none by simp
next
  case d: (Inr d)
  show thesis
  proof (cases "urlParses env nodeUrl")
    case False
    then have "readNodeAndBalance env s = ([], Panics NilPointerDereference)"
      using d by (simp add: readNodeAndBalance_def queryNode_def postAddress_run)
    then show thesis using none by simp
  next
    case un: True
    obtain nr e where qn:
      "queryNode env (Address s) = ([HttpCall (addressRequest nodeUrl d)], Returns (nr, e))"
      using d un by (simp add: queryNode_def postAddress_run) (metis surj_pair)
    show thesis
    proof (cases e)
      case (Some err)
      then have "readNodeAndBalance env s =
                   ([HttpCall (addressRequest nodeUrl d)], Returns (s, Some err))"
        using qn by (simp add: readNodeAndBalance_def)
      then show thesis using node d by simp
    next
      case nok: None
      have nq: "snd (queryNode env (Address s)) = Returns (nr, None)"
        using qn nok by simp
      show thesis
      proof (cases "map_of nr ''public_key''" rule: assertString_cases)
        case panics
        then have "readNodeAndBalance env s =
                     ([HttpCall (addressRequest nodeUrl d)], Panics (InterfaceConversion ''string''))"
          using qn nok by (simp add: readNodeAndBalance_def)
        then show thesis using node d nq by simp
      next
        case pk: (ok pk)
        show thesis
        proof (cases "map_of nr ''jailed''" rule: assertBool_cases)
          case panics
          then have "readNodeAndBalance env s =
                       ([HttpCall (addressRequest nodeUrl d)], Panics (InterfaceConversion ''bool''))"
            using qn nok pk by (simp add: readNodeAndBalance_def)
          then show thesis using node d nq by simp
        next
          case j: (ok j)
          show thesis
          proof (cases "map_of nr ''service_url''" rule: assertString_cases)
            case panics
            then have "readNodeAndBalance env s =
                         ([HttpCall (addressRequest nodeUrl d)],
                          Panics (InterfaceConversion ''string''))"
              using qn nok pk j by (simp add: readNodeAndBalance_def)
            then show thesis using node d nq by simp
          next
            case su: (ok su)
            let ?s1 = "s\<lparr>PublicKey := pk, Jailed := j, ServiceUrl := su\<rparr>"
            have step: "readNodeAndBalance env s =
                          andThen ([HttpCall (addressRequest nodeUrl d)], Returns ())
                            (\<lambda>_. andThen (queryBalance env (Address s)) (\<lambda>(balResp, err).
                               case err of
                                 Some e \<Rightarrow> ret (?s1, Some e)
                               | None \<Rightarrow>
                                   andThen (assertFloat64 (map_of balResp ''balance'')) (\<lambda>b.
                                   ret (?s1\<lparr>Balance := b\<rparr>, None))))"
              using qn nok pk j su by (simp add: readNodeAndBalance_def Let_def)
            show thesis
            proof (cases "urlParses env balanceUrl")
              case False
              then have "readNodeAndBalance env s =
                           ([HttpCall (addressRequest nodeUrl d)], Panics NilPointerDereference)"
                using d by (simp add: step queryBalance_def postAddress_run)
              then show thesis using node d nq by simp
            next
              case ub: True
              obtain br e' where qb:
                "queryBalance env (Address s) =
                   ([HttpCall (addressRequest balanceUrl d)], Returns (br, e'))"
                using d ub by (simp add: queryBalance_def postAddress_run) (metis surj_pair)
              show thesis
              proof (cases e')
                case (Some err)
                then have "readNodeAndBalance env s =
                             ([HttpCall (addressRequest nodeUrl d),
                               HttpCall (addressRequest balanceUrl d)],
                              Returns (?s1, Some err))"
                  using qb by (simp add: step)
                then show thesis using balance [of d nr] d qn nok by simp
              next
                case bok: None
                show thesis
                proof (cases "map_of br ''balance''" rule: assertFloat64_cases)
                  case panics
                  then have "readNodeAndBalance env s =
                               ([HttpCall (addressRequest nodeUrl d),
                                 HttpCall (addressRequest balanceUrl d)],
                                Panics (InterfaceConversion ''float64''))"
                    using qb bok by (simp add: step)
                  then show thesis using balance [of d nr] d qn nok qb bok by simp
                next
                  case b: (ok bal)
                  then have "readNodeAndBalance env s =
                               ([HttpCall (addressRequest nodeUrl d),
                                 HttpCall (addressRequest balanceUrl d)],
                                Returns (?s1\<lparr>Balance := bal\<rparr>, None))"
                    using qb bok by (simp add: step)
                  then show thesis
                    using ok [of d nr br pk j su bal] d qn nok qb bok pk j su b by simp
                qed
              qed
            qed
          qed
        qed
      qed
    qed
  qed
qed

lemma readStatus_events: "fst (readStatus s status) = []"
proof (cases "map_of status ''node_info''" rule: assertObject_cases)
  case panics
  then show ?thesis by (simp add: readStatus_def)
next
  case ni: (ok ni)
  show ?thesis
  proof (cases "map_of ni ''id''" rule: assertString_cases)
    case panics
    then show ?thesis using ni by (simp add: readStatus_def)
  next
    case a: (ok a)
    show ?thesis
    proof (cases "map_of ni ''moniker''" rule: assertString_cases)
      case panics
      then show ?thesis using ni a by (simp add: readStatus_def)
    next
      case m: (ok m)
      show ?thesis
      proof (cases "map_of status ''sync_info''" rule: assertObject_cases)
        case panics
        then show ?thesis using ni a m by (simp add: readStatus_def)
      next
        case si: (ok si)
        show ?thesis
        proof (cases "map_of si ''latest_block_height''" rule: assertString_cases)
          case panics
          then show ?thesis using ni a m si by (simp add: readStatus_def)
        next
          case hs: (ok hs)
          show ?thesis
          proof (cases "ParseInt hs")
            case (Inl k)
            then show ?thesis using ni a m si hs by (simp add: readStatus_def)
          next
            case h: (Inr h)
            show ?thesis
            proof (cases "map_of si ''latest_block_time''" rule: assertString_cases)
              case panics
              then show ?thesis using ni a m si hs h by (simp add: readStatus_def)
            next
              case lbt: (ok lbt)
              show ?thesis
                by (cases "map_of si ''catching_up''" rule: assertBool_cases)
                  (use ni a m si hs h lbt in \<open>simp_all add: readStatus_def\<close>)
            qed
          qed
        qed
      qed
    qed
  qed
qed

lemma readStatus_ok:
  assumes "readStatus s status = (t, Returns (s2, None))"
  obtains ni si a m hs h lbt cu where
    "map_of status ''node_info'' = Some (JObject ni)"
    and "map_of ni ''id'' = Some (JString a)"
    and "map_of ni ''moniker'' = Some (JString m)"
    and "map_of status ''sync_info'' = Some (JObject si)"
    and "map_of si ''latest_block_height'' = Some (JString hs)"
    and "ParseInt hs = Inr h"
    and "map_of si ''latest_block_time'' = Some (JString lbt)"
    and "map_of si ''catching_up'' = Some (JBool cu)"
    and "s2 = s\<lparr>Address := a, Moniker := m, Height := h, LatestBlockTime := lbt,
                 CatchingUp := cu\<rparr>"
  using assms unfolding readStatus_def
  by (elim assert_andThenE)
    (auto simp: Let_def ret_def split: sum.splits elim!: assert_andThenE)

lemma collectNodeStats_cases [case_names version status node balance ok]:
  obtains
    (version) w e where "snd (queryVersion env) = Returns (w, Some e)"
      and "collectNodeStats env =
             ([HttpCall (getRequest versionUrl)],
              Returns (zeroNodeStats\<lparr>Chain := ''pocket''\<rparr>, Some e))"
  | (status) ver where "snd (queryVersion env) = Returns (ver, None)"
      and "fst (collectNodeStats env) =
             [HttpCall (getRequest versionUrl), HttpCall (getRequest statusUrl)]"
      and "\<forall>s'. snd (collectNodeStats env) \<noteq> Returns (s', None)"
      and "(\<exists>sr. snd (queryStatus env) = Returns (sr, None)) \<or>
           (\<exists>s' e. snd (collectNodeStats env) = Returns (s', Some e))"
  | (node) ver sr a d where "snd (queryVersion env) = Returns (ver, None)"
      and "snd (queryStatus env) = Returns (sr, None)"
      and "marshalAddress env a = Inr d"
      and "fst (collectNodeStats env) =
             [HttpCall (getRequest versionUrl), HttpCall (getRequest statusUrl),
              HttpCall (addressRequest nodeUrl d)]"
      and "\<forall>s'. snd (collectNodeStats env) \<noteq> Returns (s', None)"
      and "(\<exists>nr. snd (queryNode env a) = Returns (nr, None)) \<or>
           (\<exists>s' e. snd (collectNodeStats env) = Returns (s', Some e))"
  | (balance) ver sr a d nr where "snd (queryVersion env) = Returns (ver, None)"
      and "snd (queryStatus env) = Returns (sr, None)"
      and "marshalAddress env a = Inr d"
      and "snd (queryNode env a) = Returns (nr, None)"
      and "fst (collectNodeStats env) =
             [HttpCall (getRequest versionUrl), HttpCall (getRequest statusUrl),
              HttpCall (addressRequest nodeUrl d), HttpCall (addressRequest balanceUrl d)]"
      and "\<forall>s'. snd (collectNodeStats env) \<noteq> Returns (s', None)"
      and "(\<exists>br. snd (queryBalance env a) = Returns (br, None)) \<or>
           (\<exists>s' e. snd (collectNodeStats env) = Returns (s', Some e))"
  | (ok) ver sr status ni si a m hs h lbt cu d nr br pk j su bal where
      "snd (queryVersion env) = Returns (ver, None)"
      and "snd (queryStatus env) = Returns (sr, None)"
      and "map_of sr ''result'' = Some (JObject status)"
      and "map_of status ''node_info'' = Some (JObject ni)"
      and "map_of ni ''id'' = Some (JString a)"
      and "map_of ni ''moniker'' = Some (JString m)"
      and "map_of status ''sync_info'' = Some (JObject si)"
      and "map_of si ''latest_block_height'' = Some (JString hs)"
      and "ParseInt hs = Inr h"
      and "map_of si ''latest_block_time'' = Some (JString lbt)"
      and "map_of si ''catching_up'' = Some (JBool cu)"
      and "marshalAddress env a = Inr d"
      and "snd (queryNode env a) = Returns (nr, None)"
      and "snd (queryBalance env a) = Returns (br, None)"
      and "map_of nr ''public_key'' = Some (JString pk)"
      and "map_of nr ''jailed'' = Some (JBool j)"
      and "map_of nr ''service_url'' = Some (JString su)"
      and "map_of br ''balance'' = Some (JNumber bal)"
      and "collectNodeStats env =
             ([HttpCall (getRequest versionUrl), HttpCall (getRequest statusUrl),
               HttpCall (addressRequest nodeUrl d), HttpCall (addressRequest balanceUrl d)],
              Returns
                (\<lparr>Chain = ''pocket'', AppVersion = ver, Moniker = m, Height = h,
                  LatestBlockTime = lbt, CatchingUp = cu, Balance = bal, Chains = [],
                  Jailed = j, ServiceUrl = su, Address = a, PublicKey = pk\<rparr>, None))"
proof -
  note at_status = status and at_node = node and at_balance = balance and at_ok = ok
  let ?gv = "HttpCall (getRequest versionUrl)"
  let ?gs = "HttpCall (getRequest statusUrl)"
  let ?s0 = "zeroNodeStats\<lparr>Chain := ''pocket''\<rparr>"
  obtain ver e1 where qv: "queryVersion env = ([?gv], Returns (ver, e1))"
    by (simp add: queryVersion_run) (metis surj_pair)
  show thesis
  proof (cases e1)
    case (Some e)
    then have "collectNodeStats env = ([?gv], Returns (?s0, Some e))"
      using qv by (simp add: collectNodeStats_def ret_def)
    then show thesis using version [of ver e] qv Some by simp
  next
    case vok: None
    let ?s1 = "?s0\<lparr>AppVersion := ver\<rparr>"
    obtain sr e2 where qs: "queryStatus env = ([?gs], Returns (sr, e2))"
      by (simp add: queryStatus_run) (metis surj_pair)
    show thesis
    proof (cases e2)
      case (Some e)
      then have "collectNodeStats env = ([?gv, ?gs], Returns (?s1, Some e))"
        using qv vok qs by (simp add: collectNodeStats_def ret_def)
      then show thesis using status [of ver] qv vok by simp
    next
      case sok: None
      show thesis
      proof (cases "assertObjectOk (map_of sr ''result'')")
        case None
        then have "collectNodeStats env =
                     ([?gv, ?gs],
                      Returns (?s1, Some (ErrorsNew ''Invalid data from /status call'')))"
          using qv vok qs sok by (simp add: collectNodeStats_def ret_def)
        then show thesis using status [of ver] qv vok qs sok by simp
      next
        case (Some st)
        then have res: "map_of sr ''result'' = Some (JObject st)"
          by (auto simp: assertObjectOk_def split: option.splits json.splits)
        obtain out where rs: "readStatus ?s1 st = ([], out)"
          using readStatus_events [of ?s1 st] by (cases "readStatus ?s1 st") simp
        have cns: "collectNodeStats env =
                     andThen ([?gv, ?gs], out) (\<lambda>(s2, err).
                       case err of
                         Some e \<Rightarrow> ret (s2, Some e)
                       | None \<Rightarrow> readNodeAndBalance env s2)"
          using qv vok qs sok Some rs
          by (cases out) (simp_all add: collectNodeStats_def Let_def)
        show thesis
        proof (cases out)
          case (Panics p)
          then have "collectNodeStats env = ([?gv, ?gs], Panics p)"
            by (simp add: cns)
          then show thesis using status [of ver] qv vok qs sok by simp
        next
          case (Returns r)
          obtain s2 e3 where r: "r = (s2, e3)" by (cases r)
          show thesis
          proof (cases e3)
            case (Some e)
            then have "collectNodeStats env = ([?gv, ?gs], Returns (s2, Some e))"
              using Returns r by (simp add: cns ret_def)
            then show thesis using status [of ver] qv vok qs sok by simp
          next
            case None
            then have rs_ok: "readStatus ?s1 st = ([], Returns (s2, None))"
              using rs Returns r by simp
            have cns2: "collectNodeStats env =
                          (?gv # ?gs # fst (readNodeAndBalance env s2),
                           snd (readNodeAndBalance env s2))"
              using Returns r None by (simp add: cns)
            from rs_ok obtain ni si a m hs h lbt cu where f:
              "map_of st ''node_info'' = Some (JObject ni)"
              "map_of ni ''id'' = Some (JString a)"
              "map_of ni ''moniker'' = Some (JString m)"
              "map_of st ''sync_info'' = Some (JObject si)"
              "map_of si ''latest_block_height'' = Some (JString hs)"
              "ParseInt hs = Inr h"
              "map_of si ''latest_block_time'' = Some (JString lbt)"
              "map_of si ''catching_up'' = Some (JBool cu)"
              "s2 = ?s1\<lparr>Address := a, Moniker := m, Height := h, LatestBlockTime := lbt,
                         CatchingUp := cu\<rparr>"
              by (rule readStatus_ok)
            have addr: "Address s2 = a" using f(9) by simp
            show thesis
            proof (cases env s2 rule: readNodeAndBalance_cases)
              case none
              then show thesis using at_status [of ver] qv vok qs sok by (simp add: cns2)
            next
              case n: (node d)
              then show thesis using at_node [of ver sr a d] qv vok qs sok addr
                by (simp add: cns2)
            next
              case b: (balance d nr)
              then show thesis
                using at_balance [of ver sr a d nr] qv vok qs sok addr
                by (simp add: cns2)
            next
              case k: (ok d nr br pk j su bal)
              then show thesis
                using at_ok [of ver sr st ni a m si hs h lbt cu d nr br pk j su bal]
                  qv vok qs sok res f addr
                by (simp add: cns2 zeroNodeStats_def)
            qed
          qed
        qed
      qed
    qed
  qed
qed

subsection \<open>C4: the calls of the node read\<close>

lemma collectNodeStats_healthy:
  "collectNodeStats healthyEnv =
     ([HttpCall (getRequest versionUrl), HttpCall (getRequest statusUrl),
       HttpCall (addressRequest nodeUrl ''{\"address\":\"ab12cd34\"}''),
       HttpCall (addressRequest balanceUrl ''{\"address\":\"ab12cd34\"}'')],
      Returns (healthyNodeStats, None))"
  by (simp add: collectNodeStats_def readStatus_def readNodeAndBalance_def query_defs
      healthyEnv_def sample_defs url_defs assert_defs getRequest_def addressRequest_def
      healthyNodeStats_def zeroNodeStats_def ParseInt_def ParseUint_def isDigit_def
      digitVal_def)

lemma callsOf_simps [simp]:
  "callsOf [] = []"
  "callsOf (HttpCall r # es) = (Method r, URL r) # callsOf es"
  by (simp_all add: callsOf_def)

text \<open>
  C4, as the claim states it, has the version call as a POST. In the sample run the
  methods of the four calls are GET, GET, POST, POST: \<^verbatim>\<open>queryVersion\<close> uses \<^verbatim>\<open>client.Get\<close>.
\<close>

theorem collectNodeStats_version_call_is_GET:
  "map fst (callsOf (events (collectNodeStats healthyEnv))) = [GET, GET, POST, POST] \<and>
   map fst (callsOf (events (collectNodeStats healthyEnv))) \<noteq> [POST, GET, POST, POST]"
  by (simp add: collectNodeStats_healthy events_def getRequest_def addressRequest_def)

text \<open>
  C4, amended. The calls of \<^verbatim>\<open>collectNodeStats\<close> are always a non-empty initial part of the
  plan GET version, GET status, POST node, POST balance, and the whole plan when the read
  succeeds. A second call is made only after the version query succeeded, a third only
  after the status query succeeded, and a fourth only after the node query (whose request
  is the third call) succeeded.
\<close>

theorem collectNodeStats_calls:
  "(\<exists>n\<ge>1. callsOf (events (collectNodeStats env)) = take n rpcPlan) \<and>
   (\<forall>s. result (collectNodeStats env) = Returns (s, None) \<longrightarrow>
      callsOf (events (collectNodeStats env)) = rpcPlan) \<and>
   (2 \<le> length (callsOf (events (collectNodeStats env))) \<longrightarrow>
      (\<exists>ver. result (queryVersion env) = Returns (ver, None))) \<and>
   (3 \<le> length (callsOf (events (collectNodeStats env))) \<longrightarrow>
      (\<exists>sr. result (queryStatus env) = Returns (sr, None))) \<and>
   (4 \<le> length (callsOf (events (collectNodeStats env))) \<longrightarrow>
      (\<exists>a d nr. marshalAddress env a = Inr d \<and>
         httpCalls (events (collectNodeStats env)) ! 2 = addressRequest nodeUrl d \<and>
         result (queryNode env a) = Returns (nr, None)))"
proof (cases env rule: collectNodeStats_cases)
  case (version w e)
  have "take 1 rpcPlan = [(GET, versionUrl)]" by (simp add: rpcPlan_def)
  then show ?thesis using version
    by (auto simp: events_def result_def getRequest_def intro!: exI [of _ 1])
next
  case (status ver)
  have "take 2 rpcPlan = [(GET, versionUrl), (GET, statusUrl)]" by (simp add: rpcPlan_def)
  then show ?thesis using status
    by (auto simp: events_def result_def getRequest_def intro!: exI [of _ 2])
next
  case (node ver sr a d)
  have "take 3 rpcPlan = [(GET, versionUrl), (GET, statusUrl), (POST, nodeUrl)]"
    by (simp add: rpcPlan_def)
  then show ?thesis using node
    by (auto simp: events_def result_def getRequest_def addressRequest_def
        intro!: exI [of _ 3])
next
  case (balance ver sr a d nr)
  have "take 4 rpcPlan = rpcPlan" by (simp add: rpcPlan_def)
  then show ?thesis using balance
    by (auto simp: events_def result_def getRequest_def addressRequest_def rpcPlan_def
        intro!: exI [of _ 4])
next
  case (ok ver sr status ni si a m hs h lbt cu d nr br pk j su bal)
  have "take 4 rpcPlan = rpcPlan" by (simp add: rpcPlan_def)
  then show ?thesis using ok(1,2,12,13,19)
    by (auto simp: events_def result_def getRequest_def addressRequest_def rpcPlan_def
        intro!: exI [of _ 4])
qed

theorem collectNodeStats_calls_witness:
  "result (collectNodeStats healthyEnv) = Returns (healthyNodeStats, None) \<and>
   callsOf (events (collectNodeStats healthyEnv)) =
     [(GET, versionUrl), (GET, statusUrl), (POST, nodeUrl), (POST, balanceUrl)] \<and>
   4 \<le> length (callsOf (events (collectNodeStats healthyEnv))) \<and>
   (\<exists>ver. result (queryVersion healthyEnv) = Returns (ver, None)) \<and>
   (\<exists>sr. result (queryStatus healthyEnv) = Returns (sr, None)) \<and>
   (\<exists>a d nr. marshalAddress healthyEnv a = Inr d \<and>
      httpCalls (events (collectNodeStats healthyEnv)) ! 2 = addressRequest nodeUrl d \<and>
      result (queryNode healthyEnv a) = Returns (nr, None))"
proof -
  have r: "result (collectNodeStats healthyEnv) = Returns (healthyNodeStats, None)"
    by (simp add: collectNodeStats_healthy result_def)
  have c: "callsOf (events (collectNodeStats healthyEnv)) = rpcPlan"
    using collectNodeStats_calls [of healthyEnv] r by blast
  have l: "4 \<le> length (callsOf (events (collectNodeStats healthyEnv)))"
    by (simp add: c rpcPlan_def)
  show ?thesis
    using collectNodeStats_calls [of healthyEnv] r c l by (simp add: rpcPlan_def)
qed

subsection \<open>C5: what the fields of a successful read are\<close>

lemma parseDigits_nonneg:
  assumes "parseDigits n cs = Inr m" and "0 \<le> n"
  shows "0 \<le> m"
  using assms
proof (induction cs arbitrary: n)
  case Nil
  then show ?case by simp
next
  case (Cons c cs)
  from Cons.prems(1) have d: "isDigit c" by (simp split: if_splits)
  then have "0 \<le> n * 10 + digitVal c"
    using Cons.prems(2) by (simp add: isDigit_def digitVal_def)
  then show ?case
    using Cons.IH [of "n * 10 + digitVal c"] Cons.prems(1) d by (simp split: if_splits)
qed

lemma ParseInt_range:
  assumes "ParseInt hs = Inr h"
  shows "- (2 ^ 63) \<le> h \<and> h < 2 ^ 63"
proof -
  from assms obtain s un where un: "ParseUint s = Inr un"
    and h: "h = un \<and> un < 2 ^ 63 \<or> h = - un \<and> un \<le> 2 ^ 63"
    by (auto simp: ParseInt_def Let_def split: if_splits sum.splits num_error.splits)
  from un have "0 \<le> un"
    using parseDigits_nonneg [of 0 s un] by (simp add: ParseUint_def split: if_splits)
  with h show ?thesis by auto
qed

text \<open>
  C5, as the claim states it, fails: the code copies what the node serves. With a
  \<^verbatim>\<open>/status\<close> body whose \<^verbatim>\<open>id\<close> is the empty string and whose \<^verbatim>\<open>latest_block_height\<close> is
  \<^verbatim>\<open>"-1"\<close>, and a node answer whose \<^verbatim>\<open>public_key\<close> is empty, the read succeeds with a negative
  height and an empty address and public key.
\<close>

theorem collectNodeStats_negative_height_empty_address:
  "result (collectNodeStats oddValuesEnv) = Returns (oddNodeStats, None) \<and>
   Height oddNodeStats < 0 \<and> Address oddNodeStats = [] \<and> PublicKey oddNodeStats = []"
  by (simp add: collectNodeStats_def readStatus_def readNodeAndBalance_def query_defs
      oddValuesEnv_def sample_defs url_defs assert_defs result_def
      oddNodeStats_def zeroNodeStats_def ParseInt_def ParseUint_def isDigit_def
      digitVal_def)

text \<open>
  C5, amended. In every successful read the height is the value \<^verbatim>\<open>ParseInt\<close> gives for the
  string \<^verbatim>\<open>result.sync_info.latest_block_height\<close> of the status answer, so it lies in the
  range of an \<^verbatim>\<open>int64\<close>; the address is the string \<^verbatim>\<open>result.node_info.id\<close>; the public key
  is the string \<^verbatim>\<open>public_key\<close> of the answer of the node query for that address. Nothing
  more is required of them.
\<close>

theorem collectNodeStats_fields:
  assumes "result (collectNodeStats env) = Returns (s, None)"
  shows "\<exists>sr status ni si hs nr.
           result (queryStatus env) = Returns (sr, None) \<and>
           map_of sr ''result'' = Some (JObject status) \<and>
           map_of status ''node_info'' = Some (JObject ni) \<and>
           map_of ni ''id'' = Some (JString (Address s)) \<and>
           map_of status ''sync_info'' = Some (JObject si) \<and>
           map_of si ''latest_block_height'' = Some (JString hs) \<and>
           ParseInt hs = Inr (Height s) \<and>
           - (2 ^ 63) \<le> Height s \<and> Height s < 2 ^ 63 \<and>
           result (queryNode env (Address s)) = Returns (nr, None) \<and>
           map_of nr ''public_key'' = Some (JString (PublicKey s))"
proof (cases env rule: collectNodeStats_cases)
  case (ok ver sr status ni si a m hs h lbt cu d nr br pk j su bal)
  from ok(19) assms have s: "Address s = a" "Height s = h" "PublicKey s = pk"
    by (auto simp: result_def)
  show ?thesis
    using ok(2-9,13,15) ParseInt_range [OF ok(9)] s by (auto simp: result_def)
qed (use assms in \<open>auto simp: result_def\<close>)

theorem collectNodeStats_fields_witness:
  "result (collectNodeStats healthyEnv) = Returns (healthyNodeStats, None) \<and>
   (\<exists>sr status ni si hs nr.
      result (queryStatus healthyEnv) = Returns (sr, None) \<and>
      map_of sr ''result'' = Some (JObject status) \<and>
      map_of status ''node_info'' = Some (JObject ni) \<and>
      map_of ni ''id'' = Some (JString ''ab12cd34'') \<and>
      map_of status ''sync_info'' = Some (JObject si) \<and>
      map_of si ''latest_block_height'' = Some (JString hs) \<and>
      ParseInt hs = Inr 1000000 \<and>
      result (queryNode healthyEnv ''ab12cd34'') = Returns (nr, None) \<and>
      map_of nr ''public_key'' = Some (JString ''5f0a''))"
proof -
  have r: "result (collectNodeStats healthyEnv) = Returns (healthyNodeStats, None)"
    by (simp add: collectNodeStats_healthy result_def)
  show ?thesis
    using collectNodeStats_fields [OF r] r by (simp add: healthyNodeStats_def)
qed

subsection \<open>C7: the assembly of a report\<close>

lemma httpCalls_append [simp]: "httpCalls (xs @ ys) = httpCalls xs @ httpCalls ys"
  by (induction xs rule: httpCalls.induct) simp_all

lemma collectHostStats_no_http: "httpCalls (fst (collectHostStats env)) = []"
  by (simp add: collectHostStats_def Let_def split: sum.splits prod.splits list.splits)

lemma collectStats_unfold:
  "collectStats env =
     (case collectHostStats env of
        (th, Panics p) \<Rightarrow> (ClockNow # th, Panics p)
      | (th, Returns (hs, Some e)) \<Rightarrow>
          (ClockNow # th,
           Returns (zeroStats\<lparr>Version := ''v1'', Timestamp := nowRFC3339 env\<rparr>, Some e))
      | (th, Returns (hs, None)) \<Rightarrow>
          (case collectNodeStats env of
             (tn, Panics p) \<Rightarrow> (ClockNow # th @ tn, Panics p)
           | (tn, Returns (ns, Some e)) \<Rightarrow>
               (ClockNow # th @ tn,
                Returns (zeroStats\<lparr>Version := ''v1'', Timestamp := nowRFC3339 env\<rparr>, Some e))
           | (tn, Returns (ns, None)) \<Rightarrow>
               (ClockNow # th @ tn,
                Returns (zeroStats\<lparr>Version := ''v1'', Timestamp := nowRFC3339 env,
                                    Host := hs, Node := ns\<rparr>, None))))"
  by (simp add: collectStats_def Let_def ret_def
      split: prod.splits outcome.splits option.splits)

lemma collectHostStats_healthy:
  "collectHostStats healthyEnv =
     ([MemVirtualMemory, DiskUsage ''/'', CpuPercent, HostInfo], Returns (healthyHostStats, None))"
  by (simp add: collectHostStats_def healthyEnv_def sampleEnv_def healthyHostStats_def
      zeroHostStats_def ret_def)

lemma collectHostStats_diskFails:
  "collectHostStats diskFailsEnv =
     ([MemVirtualMemory, DiskUsage ''/''],
      Returns (zeroHostStats\<lparr>MemoryTotal := 17179869184, MemoryFree := 4294967296\<rparr>,
               Some (ResourceError ''no such file or directory'')))"
  by (simp add: collectHostStats_def diskFailsEnv_def healthyEnv_def sampleEnv_def ret_def)

lemma collectHostStats_transport:
  "collectHostStats (sampleEnv tr) = collectHostStats healthyEnv"
  by (simp add: collectHostStats_def healthyEnv_def sampleEnv_def)

lemma collectNodeStats_nodeDown:
  "collectNodeStats nodeDownEnv =
     ([HttpCall (getRequest versionUrl)],
      Returns (zeroNodeStats\<lparr>Chain := ''pocket''\<rparr>, Some (TransportError ''connection refused'')))"
  by (simp add: collectNodeStats_def queryVersion_run nodeDownEnv_def sampleEnv_def ret_def)

text \<open>
  C7. Whatever \<^verbatim>\<open>collectStats\<close> returns has version \<^verbatim>\<open>v1\<close> and as timestamp the clock
  reading \<^verbatim>\<open>time.Now().Format(time.RFC3339)\<close>, taken first. The host read comes before the
  node read. If the host read returns an error, that error is returned and no HTTP call is
  made; if the host read succeeds and the node read returns an error, that error is
  returned; if both succeed the report holds both results.
\<close>

theorem collectStats_assembles:
  "(\<forall>s err. result (collectStats env) = Returns (s, err) \<longrightarrow>
      Version s = ''v1'' \<and> Timestamp s = nowRFC3339 env) \<and>
   (\<forall>hs e. result (collectHostStats env) = Returns (hs, Some e) \<longrightarrow>
      result (collectStats env) =
        Returns (zeroStats\<lparr>Version := ''v1'', Timestamp := nowRFC3339 env\<rparr>, Some e) \<and>
      events (collectStats env) = ClockNow # events (collectHostStats env) \<and>
      httpCalls (events (collectStats env)) = []) \<and>
   (\<forall>hs. result (collectHostStats env) = Returns (hs, None) \<longrightarrow>
      events (collectStats env) =
        ClockNow # events (collectHostStats env) @ events (collectNodeStats env) \<and>
      (\<forall>ns e. result (collectNodeStats env) = Returns (ns, Some e) \<longrightarrow>
         result (collectStats env) =
           Returns (zeroStats\<lparr>Version := ''v1'', Timestamp := nowRFC3339 env\<rparr>, Some e)) \<and>
      (\<forall>ns. result (collectNodeStats env) = Returns (ns, None) \<longrightarrow>
         result (collectStats env) =
           Returns (zeroStats\<lparr>Version := ''v1'', Timestamp := nowRFC3339 env,
                               Host := hs, Node := ns\<rparr>, None)))"
proof -
  obtain th oh where h: "collectHostStats env = (th, oh)" by (cases "collectHostStats env")
  obtain tn on where n: "collectNodeStats env = (tn, on)" by (cases "collectNodeStats env")
  have nh: "httpCalls th = []" using collectHostStats_no_http [of env] h by simp
  show ?thesis
    using nh
    by (auto simp: collectStats_unfold h n result_def events_def
        split: outcome.splits option.splits)
qed

theorem collectStats_assembles_witness:
  "result (collectHostStats diskFailsEnv) =
     Returns (zeroHostStats\<lparr>MemoryTotal := 17179869184, MemoryFree := 4294967296\<rparr>,
              Some (ResourceError ''no such file or directory'')) \<and>
   result (collectStats diskFailsEnv) =
     Returns (zeroStats\<lparr>Version := ''v1'', Timestamp := ''2021-06-01T10:00:05Z''\<rparr>,
              Some (ResourceError ''no such file or directory'')) \<and>
   events (collectStats diskFailsEnv) = [ClockNow, MemVirtualMemory, DiskUsage ''/''] \<and>
   result (collectHostStats nodeDownEnv) = Returns (healthyHostStats, None) \<and>
   result (collectNodeStats nodeDownEnv) =
     Returns (zeroNodeStats\<lparr>Chain := ''pocket''\<rparr>, Some (TransportError ''connection refused'')) \<and>
   result (collectStats nodeDownEnv) =
     Returns (zeroStats\<lparr>Version := ''v1'', Timestamp := ''2021-06-01T10:00:05Z''\<rparr>,
              Some (TransportError ''connection refused'')) \<and>
   result (collectHostStats healthyEnv) = Returns (healthyHostStats, None) \<and>
   result (collectNodeStats healthyEnv) = Returns (healthyNodeStats, None) \<and>
   result (collectStats healthyEnv) =
     Returns (zeroStats\<lparr>Version := ''v1'', Timestamp := ''2021-06-01T10:00:05Z'',
                         Host := healthyHostStats, Node := healthyNodeStats\<rparr>, None) \<and>
   events (collectStats healthyEnv) =
     [ClockNow, MemVirtualMemory, DiskUsage ''/'', CpuPercent, HostInfo,
      HttpCall (getRequest versionUrl), HttpCall (getRequest statusUrl),
      HttpCall (addressRequest nodeUrl ''{\"address\":\"ab12cd34\"}''),
      HttpCall (addressRequest balanceUrl ''{\"address\":\"ab12cd34\"}'')]"
proof -
  have hd: "result (collectHostStats diskFailsEnv) =
              Returns (zeroHostStats\<lparr>MemoryTotal := 17179869184, MemoryFree := 4294967296\<rparr>,
                       Some (ResourceError ''no such file or directory''))"
    and ed: "events (collectHostStats diskFailsEnv) = [MemVirtualMemory, DiskUsage ''/'']"
    by (simp_all add: collectHostStats_diskFails result_def events_def)
  have hn: "result (collectHostStats nodeDownEnv) = Returns (healthyHostStats, None)"
    by (simp add: nodeDownEnv_def collectHostStats_transport collectHostStats_healthy
        result_def)
  have nn: "result (collectNodeStats nodeDownEnv) =
              Returns (zeroNodeStats\<lparr>Chain := ''pocket''\<rparr>,
                       Some (TransportError ''connection refused''))"
    by (simp add: collectNodeStats_nodeDown result_def)
  have hh: "result (collectHostStats healthyEnv) = Returns (healthyHostStats, None)"
    and eh: "events (collectHostStats healthyEnv) =
               [MemVirtualMemory, DiskUsage ''/'', CpuPercent, HostInfo]"
    by (simp_all add: collectHostStats_healthy result_def events_def)
  have nh: "result (collectNodeStats healthyEnv) = Returns (healthyNodeStats, None)"
    and en: "events (collectNodeStats healthyEnv) =
               [HttpCall (getRequest versionUrl), HttpCall (getRequest statusUrl),
                HttpCall (addressRequest nodeUrl ''{\"address\":\"ab12cd34\"}''),
                HttpCall (addressRequest balanceUrl ''{\"address\":\"ab12cd34\"}'')]"
    by (simp_all add: collectNodeStats_healthy result_def events_def)
  have now: "nowRFC3339 diskFailsEnv = ''2021-06-01T10:00:05Z''"
    "nowRFC3339 nodeDownEnv = ''2021-06-01T10:00:05Z''"
    "nowRFC3339 healthyEnv = ''2021-06-01T10:00:05Z''"
    by (simp_all add: diskFailsEnv_def nodeDownEnv_def healthyEnv_def sampleEnv_def)
  have d: "result (collectStats diskFailsEnv) =
             Returns (zeroStats\<lparr>Version := ''v1'', Timestamp := nowRFC3339 diskFailsEnv\<rparr>,
                      Some (ResourceError ''no such file or directory'')) \<and>
           events (collectStats diskFailsEnv) = ClockNow # events (collectHostStats diskFailsEnv)"
    using collectStats_assembles [of diskFailsEnv] hd by blast
  have n: "result (collectStats nodeDownEnv) =
             Returns (zeroStats\<lparr>Version := ''v1'', Timestamp := nowRFC3339 nodeDownEnv\<rparr>,
                      Some (TransportError ''connection refused''))"
    using collectStats_assembles [of nodeDownEnv] hn nn by blast
  have h: "result (collectStats healthyEnv) =
             Returns (zeroStats\<lparr>Version := ''v1'', Timestamp := nowRFC3339 healthyEnv,
                                 Host := healthyHostStats, Node := healthyNodeStats\<rparr>, None) \<and>
           events (collectStats healthyEnv) =
             ClockNow # events (collectHostStats healthyEnv) @ events (collectNodeStats healthyEnv)"
    using collectStats_assembles [of healthyEnv] hh nh by blast
  show ?thesis
    using d n h hd ed hn nn hh eh nh en by (simp add: now)
qed

subsection \<open>C2: no report after a failed local call\<close>

lemma queryNode_ok_not_fails:
  assumes "snd (queryNode env a) = Returns (nr, None)" and "marshalAddress env a = Inr d"
  shows "\<not> rpcFails env (addressRequest nodeUrl d)"
  using assms
  by (auto simp: queryNode_def postAddress_run rpcFails_def addressRequest_def url_defs
      split: sum.splits if_splits)

lemma queryBalance_ok_not_fails:
  assumes "snd (queryBalance env a) = Returns (br, None)" and "marshalAddress env a = Inr d"
  shows "\<not> rpcFails env (addressRequest balanceUrl d)"
  using assms
  by (auto simp: queryBalance_def postAddress_run rpcFails_def addressRequest_def url_defs
      split: sum.splits if_splits)

text \<open>A local call that fails makes the node read return an error; it does not panic.\<close>

lemma collectNodeStats_rpc_failure:
  assumes "HttpCall r \<in> set (fst (collectNodeStats env))" and "rpcFails env r"
  shows "\<exists>s e. snd (collectNodeStats env) = Returns (s, Some e)"
proof (cases env rule: collectNodeStats_cases)
  case (version w e)
  then show ?thesis by simp
next
  case (status ver)
  then show ?thesis
    using assms queryVersion_ok_not_fails [of env ver] queryStatus_ok_not_fails [of env]
    by auto
next
  case (node ver sr a d)
  then show ?thesis
    using assms queryVersion_ok_not_fails [of env ver] queryStatus_ok_not_fails [of env sr]
      queryNode_ok_not_fails [of env a _ d]
    by auto
next
  case (balance ver sr a d nr)
  then show ?thesis
    using assms queryVersion_ok_not_fails [of env ver] queryStatus_ok_not_fails [of env sr]
      queryNode_ok_not_fails [of env a nr d] queryBalance_ok_not_fails [of env a _ d]
    by auto
next
  case (ok ver sr status ni si a m hs h lbt cu d nr br pk j su bal)
  then show ?thesis
    using assms queryVersion_ok_not_fails [of env ver] queryStatus_ok_not_fails [of env sr]
      queryNode_ok_not_fails [of env a nr d] queryBalance_ok_not_fails [of env a br d]
    by auto
qed

lemma collectNodeStats_calls_local:
  assumes "r \<in> set (httpCalls (fst (collectNodeStats env)))"
  shows "isLocal r"
  using assms
  by (cases env rule: collectNodeStats_cases)
    (auto simp: isLocal_def getRequest_def addressRequest_def)

lemma local_not_toCollector: "isLocal r \<Longrightarrow> \<not> toCollector r"
  by (auto simp: isLocal_def toCollector_def endpoint_def url_defs)

lemma collector_not_local: "\<not> isLocal (collectorRequest node key data)"
  by (simp add: isLocal_def collectorRequest_def getUrl_def endpoint_def url_defs)

lemma httpCalls_set: "r \<in> set (httpCalls es) \<longleftrightarrow> HttpCall r \<in> set es"
  by (induction es rule: httpCalls.induct) auto

lemma sendStats_events:
  "fst (sendStats env node key s) = [] \<or>
   (\<exists>data. fst (sendStats env node key s) = [HttpCall (collectorRequest node key data)])"
  by (auto simp: sendStats_def collectorRequest_def newRequest_def headerSet_def
      doRequest_def clientDo_def Let_def ret_def raise_panic_def split: sum.splits)

lemma collectAndSend_unfold:
  "collectAndSend env node key =
     (case collectStats env of
        (t, Panics p) \<Rightarrow> (t, Panics p)
      | (t, Returns (s, Some e)) \<Rightarrow> (t, Returns ())
      | (t, Returns (s, None)) \<Rightarrow>
          (t @ fst (sendStats env node key s),
           case snd (sendStats env node key s) of
             Panics p \<Rightarrow> Panics p
           | Returns err \<Rightarrow> Returns ()))"
  by (auto simp: collectAndSend_def andThen_def ret_def
      split: prod.splits outcome.splits option.splits)

text \<open>
  C2. If one of the calls to the local node made in a cycle fails (the transport gives an
  error, or the body does not decode), then \<^verbatim>\<open>collectStats\<close> returns an error,
  \<^verbatim>\<open>collectAndSend\<close> returns having done nothing more than \<^verbatim>\<open>collectStats\<close> did, and no
  request of the cycle goes to the collector.
\<close>

theorem collectAndSend_no_report_after_rpc_failure:
  assumes "HttpCall r \<in> set (events (collectAndSend env node key))"
    and "isLocal r"
    and "rpcFails env r"
  shows "(\<exists>s e. result (collectStats env) = Returns (s, Some e)) \<and>
         collectAndSend env node key = (events (collectStats env), Returns ()) \<and>
         filter toCollector (httpCalls (events (collectAndSend env node key))) = []"
proof -
  obtain th oh where h: "collectHostStats env = (th, oh)" by (cases "collectHostStats env")
  obtain tn on where n: "collectNodeStats env = (tn, on)" by (cases "collectNodeStats env")
  have nh: "httpCalls th = []" using collectHostStats_no_http [of env] h by simp
  then have rth: "HttpCall r \<notin> set th" using httpCalls_set [of r th] by simp
  have loc: "\<forall>q \<in> set (httpCalls tn). \<not> toCollector q"
    using collectNodeStats_calls_local [of _ env] n local_not_toCollector by auto
  have rsend: "\<And>s. HttpCall r \<notin> set (fst (sendStats env node key s))"
    using sendStats_events [of env node key] collector_not_local [of node key] assms(2)
    by (metis empty_iff empty_set event.inject set_ConsD)
  have rtn: "HttpCall r \<in> set tn"
    using assms(1) rth rsend
    by (auto simp: events_def collectAndSend_unfold collectStats_unfold h n
        split: outcome.splits option.splits prod.splits)
  then obtain s e where err: "on = Returns (s, Some e)"
    using collectNodeStats_rpc_failure [of r env] assms(3) n by auto
  have host: "\<exists>hs. oh = Returns (hs, None)"
    using assms(1) rth
    by (auto simp: events_def collectAndSend_unfold collectStats_unfold h n
        split: outcome.splits option.splits prod.splits)
  then obtain hs where oh: "oh = Returns (hs, None)" by blast
  have cs: "collectStats env =
              (ClockNow # th @ tn,
               Returns (zeroStats\<lparr>Version := ''v1'', Timestamp := nowRFC3339 env\<rparr>, Some e))"
    by (simp add: collectStats_unfold h n oh err)
  then have ca: "collectAndSend env node key = (ClockNow # th @ tn, Returns ())"
    by (simp add: collectAndSend_unfold)
  have "filter toCollector (httpCalls (ClockNow # th @ tn)) = []"
    using nh loc by (simp add: filter_empty_conv)
  then show ?thesis
    using cs ca by (simp add: result_def events_def)
qed

theorem collectAndSend_no_report_after_rpc_failure_witness:
  "HttpCall (getRequest versionUrl) \<in> set (events (collectAndSend nodeDownEnv ''n1'' ''k1'')) \<and>
   isLocal (getRequest versionUrl) \<and>
   rpcFails nodeDownEnv (getRequest versionUrl) \<and>
   collectAndSend nodeDownEnv ''n1'' ''k1'' =
     ([ClockNow, MemVirtualMemory, DiskUsage ''/'', CpuPercent, HostInfo,
       HttpCall (getRequest versionUrl)], Returns ()) \<and>
   filter toCollector (httpCalls (events (collectAndSend nodeDownEnv ''n1'' ''k1''))) = []"
proof -
  have hn: "collectHostStats nodeDownEnv =
              ([MemVirtualMemory, DiskUsage ''/'', CpuPercent, HostInfo],
               Returns (healthyHostStats, None))"
    by (simp add: nodeDownEnv_def collectHostStats_transport collectHostStats_healthy)
  have cs: "collectStats nodeDownEnv =
              ([ClockNow, MemVirtualMemory, DiskUsage ''/'', CpuPercent, HostInfo,
                HttpCall (getRequest versionUrl)],
               Returns (zeroStats\<lparr>Version := ''v1'', Timestamp := nowRFC3339 nodeDownEnv\<rparr>,
                        Some (TransportError ''connection refused'')))"
    by (simp add: collectStats_unfold hn collectNodeStats_nodeDown)
  have ev: "events (collectAndSend nodeDownEnv ''n1'' ''k1'') =
              [ClockNow, MemVirtualMemory, DiskUsage ''/'', CpuPercent, HostInfo,
               HttpCall (getRequest versionUrl)]"
    by (simp add: collectAndSend_unfold cs events_def)
  have a1: "HttpCall (getRequest versionUrl)
              \<in> set (events (collectAndSend nodeDownEnv ''n1'' ''k1''))"
    by (simp add: ev)
  have a2: "isLocal (getRequest versionUrl)"
    by (simp add: isLocal_def getRequest_def)
  have a3: "rpcFails nodeDownEnv (getRequest versionUrl)"
    by (simp add: rpcFails_def nodeDownEnv_def sampleEnv_def)
  note t = collectAndSend_no_report_after_rpc_failure [OF a1 a2 a3]
  have ec: "events (collectStats nodeDownEnv) =
              [ClockNow, MemVirtualMemory, DiskUsage ''/'', CpuPercent, HostInfo,
               HttpCall (getRequest versionUrl)]"
    by (simp add: cs events_def)
  from t have "collectAndSend nodeDownEnv ''n1'' ''k1'' =
                 (events (collectStats nodeDownEnv), Returns ())"
    by blast
  then have c: "collectAndSend nodeDownEnv ''n1'' ''k1'' =
                  ([ClockNow, MemVirtualMemory, DiskUsage ''/'', CpuPercent, HostInfo,
                    HttpCall (getRequest versionUrl)], Returns ())"
    by (simp only: ec)
  from t have f: "filter toCollector
                    (httpCalls (events (collectAndSend nodeDownEnv ''n1'' ''k1''))) = []"
    by blast
  show ?thesis
    using a1 a2 a3 c f by blast
qed

subsection \<open>C8: the loop\<close>

lemma collectStats_healthy:
  "collectStats healthyEnv =
     ([ClockNow, MemVirtualMemory, DiskUsage ''/'', CpuPercent, HostInfo,
       HttpCall (getRequest versionUrl), HttpCall (getRequest statusUrl),
       HttpCall (addressRequest nodeUrl ''{\"address\":\"ab12cd34\"}''),
       HttpCall (addressRequest balanceUrl ''{\"address\":\"ab12cd34\"}'')],
      Returns (zeroStats\<lparr>Version := ''v1'', Timestamp := ''2021-06-01T10:00:05Z'',
                          Host := healthyHostStats, Node := healthyNodeStats\<rparr>, None))"
  by (simp add: collectStats_unfold collectHostStats_healthy collectNodeStats_healthy)
    (simp add: healthyEnv_def sampleEnv_def)

lemma collectAndSend_healthy:
  "collectAndSend healthyEnv ''n1'' ''k1'' =
     ([ClockNow, MemVirtualMemory, DiskUsage ''/'', CpuPercent, HostInfo,
       HttpCall (getRequest versionUrl), HttpCall (getRequest statusUrl),
       HttpCall (addressRequest nodeUrl ''{\"address\":\"ab12cd34\"}''),
       HttpCall (addressRequest balanceUrl ''{\"address\":\"ab12cd34\"}''),
       HttpCall (collectorRequest ''n1'' ''k1''
         ''{\"version\":\"v1\",\"timestamp\":\"2021-06-01T10:00:05Z\"}'')],
      Returns ())"
proof -
  let ?s = "zeroStats\<lparr>Version := ''v1'', Timestamp := ''2021-06-01T10:00:05Z'',
                        Host := healthyHostStats, Node := healthyNodeStats\<rparr>"
  let ?d = "''{\"version\":\"v1\",\"timestamp\":\"2021-06-01T10:00:05Z\"}''"
  have m: "marshalStats healthyEnv ?s = Inr ?d"
    by (simp add: healthyEnv_def sampleEnv_def sampleMarshalStats_def)
  have u: "urlParses healthyEnv (getUrl ''n1'')"
    by (simp add: healthyEnv_def sampleEnv_def)
  have t: "transport healthyEnv (collectorRequest ''n1'' ''k1'' ?d)
             = Inr \<lparr>StatusCode = 200, Body = ''accepted''\<rparr>"
    by (simp add: healthyEnv_def sampleEnv_def sampleTransport_def collectorRequest_def
        getUrl_def endpoint_def url_defs)
  show ?thesis
    by (simp add: collectAndSend_unfold collectStats_healthy sendStats_received [OF m u t])
qed

lemma collectAndSend_noSyncInfo:
  "collectAndSend noSyncInfoEnv ''n1'' ''k1'' =
     ([ClockNow, MemVirtualMemory, DiskUsage ''/'', CpuPercent, HostInfo,
       HttpCall (getRequest versionUrl), HttpCall (getRequest statusUrl)],
      Panics (InterfaceConversion ''map[string]interface {}''))"
proof -
  have n: "collectNodeStats noSyncInfoEnv =
             ([HttpCall (getRequest versionUrl), HttpCall (getRequest statusUrl)],
              Panics (InterfaceConversion ''map[string]interface {}''))"
    by (simp add: collectNodeStats_def readStatus_def query_defs noSyncInfoEnv_def
        sample_defs url_defs assert_defs getRequest_def)
  have h: "collectHostStats noSyncInfoEnv =
             ([MemVirtualMemory, DiskUsage ''/'', CpuPercent, HostInfo],
              Returns (healthyHostStats, None))"
    by (simp add: noSyncInfoEnv_def collectHostStats_transport collectHostStats_healthy)
  show ?thesis
    by (simp add: collectAndSend_unfold collectStats_unfold h n)
qed

text \<open>
  What does hold of the loop. A cycle whose reads or whose send return an error returns
  normally, and every cycle reads the clock exactly once.
\<close>

lemma collectAndSend_returns_after_error:
  assumes "result (collectStats env) = Returns (s, Some e)"
  shows "result (collectAndSend env node key) = Returns ()"
  using assms
  by (cases "collectStats env") (simp add: collectAndSend_unfold result_def)

lemma collectAndSend_returns_after_send:
  assumes "result (collectStats env) = Returns (s, None)"
    and "result (sendStats env node key s) = Returns err"
  shows "result (collectAndSend env node key) = Returns ()"
  using assms
  by (cases "collectStats env") (simp add: collectAndSend_unfold result_def)

lemma collectHostStats_no_clock: "ClockNow \<notin> set (fst (collectHostStats env))"
  by (simp add: collectHostStats_def Let_def split: sum.splits prod.splits list.splits)

lemma collectNodeStats_no_clock: "ClockNow \<notin> set (fst (collectNodeStats env))"
  by (cases env rule: collectNodeStats_cases) auto

lemma sendStats_no_clock: "ClockNow \<notin> set (fst (sendStats env node key s))"
  using sendStats_events [of env node key s] by auto

lemma collectAndSend_one_clock: "cyclesBegun (fst (collectAndSend env node key)) = 1"
proof -
  obtain th oh where h: "collectHostStats env = (th, oh)" by (cases "collectHostStats env")
  obtain tn on where n: "collectNodeStats env = (tn, on)" by (cases "collectNodeStats env")
  have c: "ClockNow \<notin> set th" "ClockNow \<notin> set tn"
    "\<And>s. ClockNow \<notin> set (fst (sendStats env node key s))"
    using collectHostStats_no_clock [of env] collectNodeStats_no_clock [of env]
      sendStats_no_clock [of env node key] h n by simp_all
  have f: "\<And>xs. ClockNow \<notin> set xs \<Longrightarrow> filter (\<lambda>e. e = ClockNow) xs = []"
    by (auto simp: filter_empty_conv)
  show ?thesis
    using c
    by (auto simp: cyclesBegun_def collectAndSend_unfold collectStats_unfold h n f
        split: outcome.splits option.splits prod.splits)
qed

lemma cyclesBegun_append [simp]: "cyclesBegun (xs @ ys) = cyclesBegun xs + cyclesBegun ys"
  by (simp add: cyclesBegun_def)

text \<open>
  If no cycle panics, the loop serves every tick with one cycle and returns at the
  cancellation; with ticks only it stays blocked in \<^verbatim>\<open>select\<close>.
\<close>

lemma selectLoop_without_panic:
  assumes "\<forall>k. result (collectAndSend (envs k) node key) = Returns ()"
  shows "result (selectLoop envs node key k (replicate n TickerC @ CtxDone # rest)) =
           Returns Exited \<and>
         cyclesBegun (events (selectLoop envs node key k (replicate n TickerC @ CtxDone # rest)))
           = n \<and>
         result (selectLoop envs node key k (replicate n TickerC)) = Returns Blocked"
proof (induction n arbitrary: k)
  case 0
  show ?case by (simp add: result_def events_def ret_def cyclesBegun_def)
next
  case (Suc n)
  have "snd (collectAndSend (envs k) node key) = Returns ()"
    using assms by (simp add: result_def)
  then obtain t where c: "collectAndSend (envs k) node key = (t, Returns ())"
    by (cases "collectAndSend (envs k) node key") simp
  have t: "cyclesBegun t = 1"
    using collectAndSend_one_clock [of "envs k" node key] c by simp
  show ?case
    using Suc.IH [of "Suc k"] t by (simp add: c result_def events_def)
qed

lemma start_without_panic:
  assumes "\<forall>k. result (collectAndSend (envs k) node key) = Returns ()"
  shows "result (start envs (replicate n TickerC @ CtxDone # rest) node key daemon) =
           Returns Exited \<and>
         cyclesBegun (events (start envs (replicate n TickerC @ CtxDone # rest) node key daemon))
           = Suc n \<and>
         result (start envs (replicate n TickerC) node key daemon) = Returns Blocked"
proof -
  have "snd (collectAndSend (envs 0) node key) = Returns ()"
    using assms by (simp add: result_def)
  then obtain t where c: "collectAndSend (envs 0) node key = (t, Returns ())"
    by (cases "collectAndSend (envs 0) node key") simp
  have t: "cyclesBegun t = 1"
    using collectAndSend_one_clock [of "envs 0" node key] c by simp
  show ?thesis
    using selectLoop_without_panic [OF assms, of 1 n rest] t
    by (simp add: start_def c result_def events_def cyclesBegun_def)
qed

text \<open>
  C8. The claim: a cycle that fails never ends the loop, and the loop exits only on
  cancellation. In the run below the node is healthy at startup and has lost \<^verbatim>\<open>sync_info\<close>
  from the first tick on; two ticks arrive, then the cancellation. The ticker is created
  with the period of three minutes and the startup cycle sends its report. The cycle of
  the first tick panics in \<^verbatim>\<open>collectNodeStats\<close>, and that ends the loop: two cycles were
  begun for the startup and two ticks, and the run ends in the panic, not in the exit on
  \<^verbatim>\<open>ctx.Done()\<close>.
\<close>

theorem start_ends_on_panicking_cycle:
  "result (start syncInfoLostEnvs [TickerC, TickerC, CtxDone] ''n1'' ''k1'' False) =
     Panics (InterfaceConversion ''map[string]interface {}'') \<and>
   cyclesBegun (events (start syncInfoLostEnvs [TickerC, TickerC, CtxDone] ''n1'' ''k1'' False)) = 2 \<and>
   hd (events (start syncInfoLostEnvs [TickerC, TickerC, CtxDone] ''n1'' ''k1'' False)) =
     NewTicker (3 * 60 * 1000000000)"
  by (simp add: start_def syncInfoLostEnvs_def collectAndSend_healthy
      collectAndSend_noSyncInfo result_def events_def cyclesBegun_def sleepTime_def)

subsection \<open>C9: the free percentages\<close>

text \<open>The exponent and the spacing, in terms of the logarithm.\<close>

lemma pow2_powr: "pow2 e = 2 powr of_int e"
  by (simp add: pow2_def powr_int)

lemma binade_log:
  assumes "0 < x"
  shows "binade x = \<lfloor>log 2 x\<rfloor>"
  using assms
proof (induction x rule: binade.induct)
  case (1 x)
  show ?case
  proof (cases "x < 1")
    case True
    have "binade x = binade (2 * x) - 1"
      using True "1.prems" by (subst binade.simps) simp
    also have "binade (2 * x) = \<lfloor>log 2 (2 * x)\<rfloor>"
      using "1.IH"(1) True "1.prems" by simp
    also have "log 2 (2 * x) = log 2 x + 1"
      using "1.prems" by (simp add: log_mult)
    finally show ?thesis by simp
  next
    case False
    show ?thesis
    proof (cases "2 \<le> x")
      case True
      have "binade x = binade (x / 2) + 1"
        using True False "1.prems" by (subst binade.simps) simp
      also have "binade (x / 2) = \<lfloor>log 2 (x / 2)\<rfloor>"
        using "1.IH"(2) True False "1.prems" by simp
      also have "log 2 (x / 2) = log 2 x - 1"
        using "1.prems" by (simp add: log_divide)
      finally show ?thesis by simp
    next
      case nt: False
      have b: "binade x = 0"
        using nt False "1.prems" by (subst binade.simps) simp
      have "2 powr 0 \<le> x" "x < 2 powr (0 + 1)" using nt False by simp_all
      then have "\<lfloor>log 2 x\<rfloor> = 0"
        using floor_log_eq_powr_iff [of x 2 0] "1.prems" by simp
      then show ?thesis using b by simp
    qed
  qed
qed

lemma ulp_log:
  assumes "x \<noteq> 0"
  shows "ulp x = 2 powr of_int (\<lfloor>log 2 \<bar>x\<bar>\<rfloor> - 52)"
  using assms by (simp add: ulp_def pow2_powr binade_log)


lemma roundEven_of_int [simp]: "roundEven (of_int k) = k"
  by (simp add: roundEven_def)

lemma roundEven_numeral [simp]: "roundEven (numeral n) = numeral n"
  using roundEven_of_int [of "numeral n"] by simp

lemma roundEven_bounds: "\<lfloor>x\<rfloor> \<le> roundEven x \<and> roundEven x \<le> \<lfloor>x\<rfloor> + 1"
  by (simp add: roundEven_def Let_def)

lemma roundEven_mono:
  assumes "x \<le> y"
  shows "roundEven x \<le> roundEven y"
proof (cases "\<lfloor>x\<rfloor> = \<lfloor>y\<rfloor>")
  case True
  then show ?thesis using assms by (auto simp: roundEven_def Let_def)
next
  case False
  then have "\<lfloor>x\<rfloor> + 1 \<le> \<lfloor>y\<rfloor>" using assms floor_mono [of x y] by linarith
  then show ?thesis using roundEven_bounds [of x] roundEven_bounds [of y] by linarith
qed

lemma ulp_pos: "0 < ulp x"
  by (simp add: ulp_def pow2_powr)

lemma float64Round_bounds:
  assumes "0 < x"
  shows "2 powr of_int \<lfloor>log 2 x\<rfloor> \<le> float64Round x"
    and "float64Round x \<le> 2 powr of_int (\<lfloor>log 2 x\<rfloor> + 1)"
proof -
  let ?e = "\<lfloor>log 2 x\<rfloor>"
  have e: "2 powr of_int ?e \<le> x" "x < 2 powr of_int (?e + 1)"
    using floor_log_eq_powr_iff [of x 2 ?e] assms by simp_all
  have u: "ulp x = 2 powr (of_int ?e - 52)"
    using assms ulp_log [of x] by simp
  have u52: "ulp x * 2 ^ 52 = 2 powr of_int ?e"
    unfolding u by (simp add: powr_diff)
  have u53: "ulp x * 2 ^ 53 = 2 powr of_int (?e + 1)"
    unfolding u by (simp add: powr_diff powr_add)
  have lo: "of_int (2 ^ 52) \<le> x / ulp x"
    using e(1) u52 ulp_pos [of x] by (simp add: pos_le_divide_eq mult.commute)
  have hi: "x / ulp x \<le> of_int (2 ^ 53)"
    using e(2) u53 ulp_pos [of x] by (simp add: pos_divide_le_eq mult.commute)
  have rl: "2 ^ 52 \<le> roundEven (x / ulp x)"
    using roundEven_mono [OF lo] by simp
  have rh: "roundEven (x / ulp x) \<le> 2 ^ 53"
    using roundEven_mono [OF hi] by simp
  have f: "float64Round x = ulp x * of_int (roundEven (x / ulp x))"
    using assms by (simp add: float64Round_def)
  have rl': "(2 ^ 52 :: real) \<le> of_int (roundEven (x / ulp x))"
    using of_int_le_iff [of "2 ^ 52" "roundEven (x / ulp x)", where ?'a = real] rl by simp
  have rh': "of_int (roundEven (x / ulp x)) \<le> (2 ^ 53 :: real)"
    using of_int_le_iff [of "roundEven (x / ulp x)" "2 ^ 53", where ?'a = real] rh by simp
  have "ulp x * 2 ^ 52 \<le> ulp x * of_int (roundEven (x / ulp x))"
    using mult_left_mono [OF rl', of "ulp x"] ulp_pos [of x] by simp
  then show "2 powr of_int ?e \<le> float64Round x"
    using u52 f by simp
  have "ulp x * of_int (roundEven (x / ulp x)) \<le> ulp x * 2 ^ 53"
    using mult_left_mono [OF rh', of "ulp x"] ulp_pos [of x] by simp
  then show "float64Round x \<le> 2 powr of_int (?e + 1)"
    using u53 f by simp
qed


lemma float64Round_nonneg:
  assumes "0 \<le> x"
  shows "0 \<le> float64Round x"
proof (cases "x = 0")
  case True
  then show ?thesis by (simp add: float64Round_def)
next
  case False
  then have "0 < x" using assms by simp
  from float64Round_bounds(1) [OF this] show ?thesis
    by (meson order_trans powr_ge_zero)
qed

lemma float64Round_pos:
  assumes "0 < x"
  shows "0 < float64Round x"
proof -
  have "0 < (2::real) powr of_int \<lfloor>log 2 x\<rfloor>" by simp
  then show ?thesis using float64Round_bounds(1) [OF assms] by linarith
qed

lemma float64Round_mono:
  assumes "0 \<le> x" and "x \<le> y"
  shows "float64Round x \<le> float64Round y"
proof (cases "x = 0")
  case True
  then show ?thesis
    using float64Round_nonneg [of y] assms by (simp add: float64Round_def)
next
  case False
  then have x: "0 < x" and y: "0 < y" using assms by simp_all
  have le: "\<lfloor>log 2 x\<rfloor> \<le> \<lfloor>log 2 y\<rfloor>"
    using x y assms(2) by (intro floor_mono) simp
  show ?thesis
  proof (cases "\<lfloor>log 2 x\<rfloor> = \<lfloor>log 2 y\<rfloor>")
    case True
    then have u: "ulp x = ulp y" using x y by (simp add: ulp_log)
    have "x / ulp y \<le> y / ulp y"
      using assms(2) ulp_pos [of y] by (simp add: divide_right_mono)
    then have "roundEven (x / ulp y) \<le> roundEven (y / ulp y)"
      by (rule roundEven_mono)
    then have "(of_int (roundEven (x / ulp y)) :: real) \<le> of_int (roundEven (y / ulp y))"
      by simp
    then have "ulp y * of_int (roundEven (x / ulp y)) \<le> ulp y * of_int (roundEven (y / ulp y))"
      using ulp_pos [of y] by (simp add: mult_left_mono)
    then show ?thesis using x y u by (simp add: float64Round_def)
  next
    case False
    then have "\<lfloor>log 2 x\<rfloor> + 1 \<le> \<lfloor>log 2 y\<rfloor>" using le by simp
    then have "(2::real) powr of_int (\<lfloor>log 2 x\<rfloor> + 1) \<le> 2 powr of_int \<lfloor>log 2 y\<rfloor>"
      by (intro powr_mono) simp_all
    then show ?thesis
      using float64Round_bounds(2) [OF x] float64Round_bounds(1) [OF y] by linarith
  qed
qed

lemma float64Round_exact:
  fixes n k :: nat
  assumes "2 ^ k \<le> n" and "n < 2 ^ (k + 1)" and "k \<le> 52"
  shows "float64Round (of_nat n) = of_nat n"
proof -
  let ?x = "real n"
  have a1: "(2::real) ^ k \<le> real n"
    using assms(1) of_nat_le_iff [of "2 ^ k" n, where ?'a = real] by simp
  have a2: "real n < 2 ^ (k + 1)"
    using assms(2) of_nat_less_iff [of n "2 ^ (k + 1)", where ?'a = real] by simp
  have pos: "0 < ?x"
    using a1 by (meson less_le_trans zero_less_numeral zero_less_power)
  have k1: "(2::real) powr real k = 2 ^ k"
    by (simp add: powr_realpow)
  have k2: "(2::real) powr (real k + 1) = 2 ^ (k + 1)"
    by (simp add: powr_add powr_realpow)
  have "2 powr real k \<le> ?x" "?x < 2 powr (real k + 1)"
    using a1 a2 by (simp_all only: k1 k2)
  then have e: "\<lfloor>log 2 ?x\<rfloor> = int k"
    using floor_log_eq_powr_iff [of ?x 2 "int k"] pos by simp
  have u: "ulp ?x = 1 / 2 ^ (52 - k)"
  proof -
    have "ulp ?x = 2 powr (real k - 52)" using pos e by (simp add: ulp_log)
    also have "\<dots> = 2 powr (- real (52 - k))" using assms(3) by (simp add: of_nat_diff)
    also have "\<dots> = 1 / 2 ^ (52 - k)" by (simp add: powr_minus powr_realpow divide_simps)
    finally show ?thesis .
  qed
  have "?x / ulp ?x = of_int (int (n * 2 ^ (52 - k)))"
    by (simp add: u)
  then have "roundEven (?x / ulp ?x) = int (n * 2 ^ (52 - k))"
    by (simp only: roundEven_of_int)
  then show ?thesis
    using pos by (simp add: float64Round_def u)
qed

lemma float64Round_1: "float64Round 1 = 1"
  using float64Round_exact [of 0 1] by simp

lemma float64Round_2: "float64Round 2 = 2"
  using float64Round_exact [of 1 2] by simp

lemma float64Round_100: "float64Round 100 = 100"
  using float64Round_exact [of 6 100] by simp

lemma float64Round_200: "float64Round 200 = 200"
  using float64Round_exact [of 7 200] by simp

lemma freePercent_range:
  assumes "tot \<noteq> 0" and "free \<le> tot"
  shows "\<exists>p. freePercent free tot = Some p \<and> 0 \<le> p \<and> p \<le> 100"
proof -
  let ?a = "float64OfUint64 free"
  let ?b = "float64OfUint64 tot"
  have t: "0 < uint tot"
    using assms(1) by (simp add: word_neq_0_conv word_less_def)
  have ft: "uint free \<le> uint tot"
    using assms(2) by (simp add: word_le_def)
  have f0: "0 \<le> uint free" by simp
  have tr: "(0::real) < of_int (uint tot)"
    using t by (simp only: of_int_0_less_iff)
  have fr: "(0::real) \<le> of_int (uint free)"
    using f0 by (simp only: of_int_0_le_iff)
  have ftr: "(of_int (uint free) :: real) \<le> of_int (uint tot)"
    using ft by (simp only: of_int_le_iff)
  have b: "0 < ?b"
    unfolding float64OfUint64_def by (rule float64Round_pos [OF tr])
  have a: "0 \<le> ?a"
    unfolding float64OfUint64_def by (rule float64Round_nonneg [OF fr])
  have ab: "?a \<le> ?b"
    unfolding float64OfUint64_def by (rule float64Round_mono [OF fr ftr])
  let ?q = "float64Round (?a / ?b)"
  have q0: "0 \<le> ?q"
    using a b by (intro float64Round_nonneg) simp
  have "?a / ?b \<le> 1" using ab b by simp
  then have "?q \<le> float64Round 1"
    using a b by (intro float64Round_mono) simp_all
  then have q1: "?q \<le> 1" by (simp add: float64Round_1)
  let ?p = "float64Round (100 * ?q)"
  have p0: "0 \<le> ?p"
    using q0 by (intro float64Round_nonneg) simp
  have "?p \<le> float64Round 100"
    using q0 q1 by (intro float64Round_mono) simp_all
  then have p1: "?p \<le> 100" by (simp add: float64Round_100)
  have "freePercent free tot = Some ?p"
    using b by (simp add: freePercent_def divFloat64_def)
  then show ?thesis using p0 p1 by simp
qed

text \<open>
  C9, as the claim states it, fails: nothing relates the free figure of a \<^verbatim>\<open>HostStats\<close>
  to its total. With totals of 1 and free figures of 2, both percentages are 200.
\<close>

theorem free_percentage_above_100:
  "0 < MemoryTotal overfullHostStats \<and> 0 < DiskTotal overfullHostStats \<and>
   memP overfullHostStats = Some 200 \<and> diskP overfullHostStats = Some 200 \<and>
   (100 :: real) < 200"
  by (simp add: memP_def diskP_def overfullHostStats_def freePercent_def divFloat64_def
      float64OfUint64_def float64Round_1 float64Round_2 float64Round_200)

text \<open>
  C9, amended. For a \<^verbatim>\<open>HostStats\<close> whose totals are positive and whose free figures are
  not above the totals, both percentages are defined and lie between 0 and 100, with the
  rounding of \<^verbatim>\<open>float64\<close> at each of the three operations.
\<close>

theorem free_percentages_in_range:
  assumes "0 < MemoryTotal s" and "0 < DiskTotal s"
    and "MemoryFree s \<le> MemoryTotal s" and "DiskFree s \<le> DiskTotal s"
  shows "\<exists>m d. memP s = Some m \<and> diskP s = Some d \<and>
           0 \<le> m \<and> m \<le> 100 \<and> 0 \<le> d \<and> d \<le> 100"
proof -
  have "MemoryTotal s \<noteq> 0" "DiskTotal s \<noteq> 0"
    using assms(1,2) by (simp_all add: word_neq_0_conv)
  then show ?thesis
    using freePercent_range [of "MemoryTotal s" "MemoryFree s"]
      freePercent_range [of "DiskTotal s" "DiskFree s"] assms(3,4)
    by (auto simp: memP_def diskP_def)
qed

theorem free_percentages_in_range_witness:
  "0 < MemoryTotal healthyHostStats \<and> 0 < DiskTotal healthyHostStats \<and>
   MemoryFree healthyHostStats \<le> MemoryTotal healthyHostStats \<and>
   DiskFree healthyHostStats \<le> DiskTotal healthyHostStats \<and>
   (\<exists>m d. memP healthyHostStats = Some m \<and> diskP healthyHostStats = Some d \<and>
      0 \<le> m \<and> m \<le> 100 \<and> 0 \<le> d \<and> d \<le> 100)"
proof -
  have h: "0 < MemoryTotal healthyHostStats" "0 < DiskTotal healthyHostStats"
    "MemoryFree healthyHostStats \<le> MemoryTotal healthyHostStats"
    "DiskFree healthyHostStats \<le> DiskTotal healthyHostStats"
    by (simp_all add: healthyHostStats_def)
  show ?thesis
    using free_percentages_in_range [OF h] h by blast
qed

end
